theory Spec2Isabelle
  imports Complex_Main "HOL-Library.Log_Nat"
begin

section \<open>Values shared by the three programs\<close>

text \<open>
  The repository holds three independent C++ programs about bank accounts: the
  hierarchy that follows the Liskov substitution principle (\<open>DepositOnlyAccount\<close>,
  \<open>WithdrawableAccount\<close>, \<open>SavingAccount\<close>, \<open>CurrentAccount\<close>, \<open>FixedTermAccount\<close>,
  \<open>BankClient\<close>), the history-constraint example (\<open>BankAccount\<close>,
  \<open>FixedDepositAccount\<close>) and the class-invariant example (\<open>BankAccount\<close>,
  \<open>CheatAccount\<close>).

  Every amount and balance of the source is a C++ \<open>double\<close>. The programs are
  modelled twice. In the first model a \<open>double\<close> is a real number and the arithmetic is
  exact; it is used where every value involved is a small integer, which binary64
  holds exactly, and for statements that only compare runs or count calls. The second
  model, further down, is over binary64 values with correctly rounded addition and
  subtraction, infinities and NaN; it is used for the statements about the amount by
  which a balance changes. The two models agree wherever the exact result is a
  binary64 number (lemmas \<open>deposit64_exact\<close>, \<open>withdraw64_exact\<close> and
  \<open>BankAccount_withdraw64_exact\<close>).
\<close>

type_synonym double = real

text \<open>
  What a method writes to \<open>cout\<close>, one value for each line of text. The numbers of a
  line are kept as numbers, the account label is the text printed between
  \<open>in\<close>/\<open>from\<close> and \<open>Account\<close>:
  \<^item> \<open>Deposited a l b\<close>: "Deposited: a in l Account. New Balance: b";
  \<^item> \<open>Withdrawn a l b\<close>: "Withdrawn: a from l Account. New Balance: b";
  \<^item> \<open>Insufficient l\<close>: "Insufficient funds in l Account!";
  \<^item> \<open>AmountWithdrawn b\<close>: "Amount withdrawn. Remaining balance is b".
\<close>

datatype line =
    Deposited double string double
  | Withdrawn double string double
  | Insufficient string
  | AmountWithdrawn double

text \<open>The two exception classes the source throws, each with its message.\<close>

datatype exn =
    invalid_argument string
  | runtime_error string

section \<open>The hierarchy that follows the principle\<close>

text \<open>
  An object is its dynamic class together with its only field, \<open>balance\<close>. A
  \<open>WithdrawableAccount*\<close> points to a \<open>SavingAccount\<close> or a \<open>CurrentAccount\<close>; a
  \<open>DepositOnlyAccount*\<close> points to a \<open>FixedTermAccount\<close> or to any withdrawable account,
  since \<open>WithdrawableAccount\<close> derives from \<open>DepositOnlyAccount\<close>.
\<close>

datatype WithdrawableAccount =
    SavingAccount double
  | CurrentAccount double

datatype DepositOnlyAccount =
    FixedTermAccount double
  | Withdrawable WithdrawableAccount

fun balance :: "WithdrawableAccount \<Rightarrow> double" where
  "balance (SavingAccount b) = b"
| "balance (CurrentAccount b) = b"

fun balance_of :: "DepositOnlyAccount \<Rightarrow> double" where
  "balance_of (FixedTermAccount b) = b"
| "balance_of (Withdrawable w) = balance w"

text \<open>The three constructors take no argument and set \<open>balance = 0\<close>.\<close>

definition new_SavingAccount :: WithdrawableAccount where
  "new_SavingAccount = SavingAccount 0"

definition new_CurrentAccount :: WithdrawableAccount where
  "new_CurrentAccount = CurrentAccount 0"

definition new_FixedTermAccount :: DepositOnlyAccount where
  "new_FixedTermAccount = FixedTermAccount 0"

text \<open>
  \<open>deposit\<close> and \<open>withdraw\<close> through a \<open>WithdrawableAccount*\<close>: the virtual call selects
  the body of the dynamic class. Each returns the object after the call and the line
  it printed.
\<close>

fun deposit :: "WithdrawableAccount \<Rightarrow> double \<Rightarrow> WithdrawableAccount \<times> line" where
  "deposit (SavingAccount b) amount =
     (SavingAccount (b + amount), Deposited amount ''Savings'' (b + amount))"
| "deposit (CurrentAccount b) amount =
     (CurrentAccount (b + amount), Deposited amount ''Current'' (b + amount))"

fun withdraw :: "WithdrawableAccount \<Rightarrow> double \<Rightarrow> WithdrawableAccount \<times> line" where
  "withdraw (SavingAccount b) amount =
     (if b \<ge> amount
      then (SavingAccount (b - amount), Withdrawn amount ''Savings'' (b - amount))
      else (SavingAccount b, Insufficient ''Savings''))"
| "withdraw (CurrentAccount b) amount =
     (if b \<ge> amount
      then (CurrentAccount (b - amount), Withdrawn amount ''Current'' (b - amount))
      else (CurrentAccount b, Insufficient ''Current''))"

text \<open>\<open>deposit\<close> through a \<open>DepositOnlyAccount*\<close>.\<close>

fun deposit_only :: "DepositOnlyAccount \<Rightarrow> double \<Rightarrow> DepositOnlyAccount \<times> line" where
  "deposit_only (FixedTermAccount b) amount =
     (FixedTermAccount (b + amount), Deposited amount ''Fixed Term'' (b + amount))"
| "deposit_only (Withdrawable w) amount =
     (case deposit w amount of (w', l) \<Rightarrow> (Withdrawable w', l))"

text \<open>
  A withdrawal of this hierarchy reports a refusal by its printed line only: the
  method returns normally in both branches.
\<close>

fun refused :: "line \<Rightarrow> bool" where
  "refused (Insufficient l) = True"
| "refused (Deposited a l b) = False"
| "refused (Withdrawn a l b) = False"
| "refused (AmountWithdrawn b) = False"

section \<open>The two programs around BankAccount\<close>

text \<open>
  \<open>BankAccount\<close> is the same class, word for word, in the history-constraint program
  and in the class-invariant program; the first derives \<open>FixedDepositAccount\<close> from
  it, the second \<open>CheatAccount\<close>. An object reached through a \<open>BankAccount*\<close> is one of
  the three dynamic classes with the inherited field \<open>balance\<close>.
\<close>

datatype BankAccount =
    BankAccount double
  | FixedDepositAccount double
  | CheatAccount double

fun BankAccount_balance :: "BankAccount \<Rightarrow> double" where
  "BankAccount_balance (BankAccount b) = b"
| "BankAccount_balance (FixedDepositAccount b) = b"
| "BankAccount_balance (CheatAccount b) = b"

text \<open>
  The constructor throws before the object exists when \<open>b < 0\<close>. The constructors of
  the derived classes only run the base constructor.
\<close>

definition new_BankAccount :: "double \<Rightarrow> exn + BankAccount" where
  "new_BankAccount b =
     (if b < 0 then Inl (invalid_argument ''Balance can't be negative'')
      else Inr (BankAccount b))"

definition new_FixedDepositAccount :: "double \<Rightarrow> exn + BankAccount" where
  "new_FixedDepositAccount b =
     (case new_BankAccount b of
        Inl e \<Rightarrow> Inl e
      | Inr base \<Rightarrow> Inr (FixedDepositAccount (BankAccount_balance base)))"

definition new_CheatAccount :: "double \<Rightarrow> exn + BankAccount" where
  "new_CheatAccount b =
     (case new_BankAccount b of
        Inl e \<Rightarrow> Inl e
      | Inr base \<Rightarrow> Inr (CheatAccount (BankAccount_balance base)))"

text \<open>
  \<open>withdraw\<close> through a \<open>BankAccount*\<close>. The result is the object after the call and
  either the exception that left the method or the line it printed. Every \<open>throw\<close> of
  the source comes before the assignment to \<open>balance\<close>, so the object after an
  exception is the object before the call.
\<close>

fun BankAccount_withdraw :: "BankAccount \<Rightarrow> double \<Rightarrow> BankAccount \<times> (exn + line)" where
  "BankAccount_withdraw (BankAccount b) amount =
     (if b - amount < 0 then (BankAccount b, Inl (runtime_error ''Insufficient funds''))
      else (BankAccount (b - amount), Inr (AmountWithdrawn (b - amount))))"
| "BankAccount_withdraw (FixedDepositAccount b) amount =
     (FixedDepositAccount b, Inl (runtime_error ''Withdraw not allowed in Fixed Deposit''))"
| "BankAccount_withdraw (CheatAccount b) amount =
     (CheatAccount (b - amount), Inr (AmountWithdrawn (b - amount)))"

section \<open>BankClient\<close>

text \<open>
  \<open>BankClient\<close> keeps two vectors of pointers, and the objects live on the heap, so two
  entries may point to the same object. The heap is a map from addresses to objects;
  a pointer is an address.
\<close>

type_synonym addr = nat

type_synonym heap = "addr \<rightharpoonup> DepositOnlyAccount"

record BankClient =
  withdrawableAccounts :: "addr list"
  depositOnlyAccounts :: "addr list"

definition new_BankClient :: "addr list \<Rightarrow> addr list \<Rightarrow> BankClient" where
  "new_BankClient ws ds = \<lparr>withdrawableAccounts = ws, depositOnlyAccounts = ds\<rparr>"

text \<open>
  The first loop of \<open>processTransactions\<close>: \<open>acc->deposit(1000); acc->withdraw(500);\<close>
  for each entry in order. The result is the heap and the lines printed; \<open>None\<close>
  stands for the undefined behaviour of C++ when an entry does not point to a live
  withdrawable account.
\<close>

fun withdrawable_loop :: "addr list \<Rightarrow> heap \<Rightarrow> (heap \<times> line list) option" where
  "withdrawable_loop [] h = Some (h, [])"
| "withdrawable_loop (acc # rest) h =
     (case h acc of
        Some (Withdrawable w) \<Rightarrow>
          (case deposit w 1000 of (w1, l1) \<Rightarrow>
           case withdraw w1 500 of (w2, l2) \<Rightarrow>
           case withdrawable_loop rest (h(acc \<mapsto> Withdrawable w2)) of
             None \<Rightarrow> None
           | Some (h', out) \<Rightarrow> Some (h', l1 # l2 # out))
      | _ \<Rightarrow> None)"

text \<open>The second loop: \<open>acc->deposit(5000);\<close> for each entry in order.\<close>

fun deposit_only_loop :: "addr list \<Rightarrow> heap \<Rightarrow> (heap \<times> line list) option" where
  "deposit_only_loop [] h = Some (h, [])"
| "deposit_only_loop (acc # rest) h =
     (case h acc of
        Some a \<Rightarrow>
          (case deposit_only a 5000 of (a1, l1) \<Rightarrow>
           case deposit_only_loop rest (h(acc \<mapsto> a1)) of
             None \<Rightarrow> None
           | Some (h', out) \<Rightarrow> Some (h', l1 # out))
      | None \<Rightarrow> None)"

definition processTransactions :: "BankClient \<Rightarrow> heap \<Rightarrow> (heap \<times> line list) option" where
  "processTransactions c h =
     (case withdrawable_loop (withdrawableAccounts c) h of
        None \<Rightarrow> None
      | Some (h1, out1) \<Rightarrow>
          (case deposit_only_loop (depositOnlyAccounts c) h1 of
             None \<Rightarrow> None
           | Some (h2, out2) \<Rightarrow> Some (h2, out1 @ out2)))"

text \<open>
  The heap that \<open>main\<close> builds before it creates the client: a \<open>SavingAccount\<close>, a
  \<open>CurrentAccount\<close> and a \<open>FixedTermAccount\<close>, at three addresses.
\<close>

definition main_heap :: heap where
  "main_heap = [0 \<mapsto> Withdrawable new_SavingAccount,
                1 \<mapsto> Withdrawable new_CurrentAccount,
                2 \<mapsto> new_FixedTermAccount]"

definition main_client :: BankClient where
  "main_client = new_BankClient [0, 1] [2]"

section \<open>Sequences of calls\<close>

text \<open>
  A caller that holds one \<open>WithdrawableAccount*\<close> and makes a sequence of calls on it.
  This is not a function of the source: it states what any client of the two virtual
  methods can do, and properties of all call sequences are stated over it.
\<close>

datatype call = Deposit double | Withdraw double

fun invoke :: "WithdrawableAccount \<Rightarrow> call \<Rightarrow> WithdrawableAccount \<times> line" where
  "invoke w (Deposit a) = deposit w a"
| "invoke w (Withdraw a) = withdraw w a"

fun invoke_all :: "WithdrawableAccount \<Rightarrow> call list \<Rightarrow> WithdrawableAccount \<times> line list" where
  "invoke_all w [] = (w, [])"
| "invoke_all w (c # cs) =
     (case invoke w c of (w1, l) \<Rightarrow>
      case invoke_all w1 cs of (w2, ls) \<Rightarrow> (w2, l # ls))"

section \<open>What one pass of the client does to one account\<close>

text \<open>
  The statements about \<open>processTransactions\<close> compare its result with these: the object
  and the lines that \<open>deposit(1000)\<close> followed by \<open>withdraw(500)\<close> gives for the entries
  of the first vector, and that \<open>deposit(5000)\<close> gives for the entries of the second.
\<close>

definition after_w :: "heap \<Rightarrow> addr list \<Rightarrow> heap" where
  "after_w h ws = (\<lambda>p. if p \<in> set ws then
      (case h p of
         Some (Withdrawable w) \<Rightarrow>
           Some (Withdrawable (fst (withdraw (fst (deposit w 1000)) 500)))
       | x \<Rightarrow> x) else h p)"

definition lines_w :: "heap \<Rightarrow> addr \<Rightarrow> line list" where
  "lines_w h p = (case h p of
       Some (Withdrawable w) \<Rightarrow>
         [snd (deposit w 1000), snd (withdraw (fst (deposit w 1000)) 500)]
     | _ \<Rightarrow> [])"

definition after_d :: "heap \<Rightarrow> addr list \<Rightarrow> heap" where
  "after_d h ds = (\<lambda>p. if p \<in> set ds
      then map_option (\<lambda>a. fst (deposit_only a 5000)) (h p) else h p)"

definition lines_d :: "heap \<Rightarrow> addr \<Rightarrow> line list" where
  "lines_d h p = (case h p of Some a \<Rightarrow> [snd (deposit_only a 5000)] | None \<Rightarrow> [])"

section \<open>One entry of the client at a time\<close>

text \<open>
  What \<open>processTransactions\<close> does for one entry of a vector, as a function on the heap:
  the object the entry points to is replaced by the object after \<open>deposit(1000)\<close>
  followed by \<open>withdraw(500)\<close>, or after \<open>deposit(5000)\<close>. The theorems compare the
  loops with these, entry by entry.
\<close>

definition withdrawable_entry :: "heap \<Rightarrow> addr \<Rightarrow> heap" where
  "withdrawable_entry h p =
     (case h p of
        Some (Withdrawable w) \<Rightarrow>
          h(p \<mapsto> Withdrawable (fst (withdraw (fst (deposit w 1000)) 500)))
      | _ \<Rightarrow> h)"

definition deposit_only_entry :: "heap \<Rightarrow> addr \<Rightarrow> heap" where
  "deposit_only_entry h p =
     (case h p of Some a \<Rightarrow> h(p \<mapsto> fst (deposit_only a 5000)) | None \<Rightarrow> h)"

text \<open>
  Which call printed a line: every \<open>deposit(a)\<close> prints one \<open>Deposited a\<close> line, every
  \<open>withdraw(a)\<close> prints one line, \<open>Withdrawn a\<close> or the notice of insufficient funds
  (which does not show the amount).
\<close>

fun from_deposit :: "double \<Rightarrow> line \<Rightarrow> bool" where
  "from_deposit a (Deposited a' l b) = (a' = a)"
| "from_deposit a (Withdrawn a' l b) = False"
| "from_deposit a (Insufficient l) = False"
| "from_deposit a (AmountWithdrawn b) = False"

fun from_withdraw :: "double \<Rightarrow> line \<Rightarrow> bool" where
  "from_withdraw a (Withdrawn a' l b) = (a' = a)"
| "from_withdraw a (Insufficient l) = True"
| "from_withdraw a (Deposited a' l b) = False"
| "from_withdraw a (AmountWithdrawn b) = False"

text \<open>
  The transcript of \<open>n\<close> withdrawable entries followed by \<open>m\<close> deposit-only entries:
  for each of the first, the line of a \<open>deposit(1000)\<close> then the line of a
  \<open>withdraw(500)\<close>; for each of the second, the line of a \<open>deposit(5000)\<close>; and
  nothing else.
\<close>

fun transcript_shape :: "nat \<Rightarrow> nat \<Rightarrow> line list \<Rightarrow> bool" where
  "transcript_shape (Suc n) m (l1 # l2 # out) =
     (from_deposit 1000 l1 \<and> from_withdraw 500 l2 \<and> transcript_shape n m out)"
| "transcript_shape 0 (Suc m) (l # out) = (from_deposit 5000 l \<and> transcript_shape 0 m out)"
| "transcript_shape 0 0 [] = True"
| "transcript_shape n m out = False"

text \<open>
  Two objects of the same class family with the same balance. It relates the heaps of
  two runs in which one withdrawable class stands in for the other.
\<close>

fun same_balance :: "DepositOnlyAccount \<Rightarrow> DepositOnlyAccount \<Rightarrow> bool" where
  "same_balance (Withdrawable w) (Withdrawable w') = (balance w = balance w')"
| "same_balance (FixedTermAccount b) (FixedTermAccount b') = (b = b')"
| "same_balance (Withdrawable w) (FixedTermAccount b') = False"
| "same_balance (FixedTermAccount b) (Withdrawable w') = False"

section \<open>Binary64 arithmetic\<close>

text \<open>
  A binary64 value is a finite number, an infinity or NaN. The finite numbers are the
  reals \<open>m * 2 ^ e\<close> with \<open>\<bar>m\<bar> < 2 ^ 53\<close> and \<open>-1074 \<le> e \<le> 971\<close>; the two zeros of the format
  are one value here, since they compare equal and differ only in how they print.
\<close>

datatype binary64 = Finite real | PlusInf | MinusInf | NaN

text \<open>
  \<open>exponent x\<close> is the integer \<open>k\<close> with \<open>2 ^ k \<le> \<bar>x\<bar> < 2 ^ (k + 1)\<close>, computed from the
  bit length of the integer part, or of the integer part of the inverse when
  \<open>\<bar>x\<bar> < 1\<close> (lemmas \<open>exponent_bounds\<close> and \<open>exponent_unique\<close>).
\<close>

definition exponent :: "real \<Rightarrow> int" where
  "exponent x = (if 1 \<le> \<bar>x\<bar> then bitlen \<lfloor>\<bar>x\<bar>\<rfloor> - 1 else - bitlen (\<lceil>1 / \<bar>x\<bar>\<rceil> - 1))"

text \<open>
  The distance between neighbouring binary64 numbers around \<open>x\<close>: 53 significant bits
  for a normal number, and \<open>2 ^ -1074\<close> in the subnormal range.
\<close>

definition spacing :: "real \<Rightarrow> real" where
  "spacing x = 2 powi (max (exponent x - 52) (- 1074))"

text \<open>The nearest integer, a tie going to the even one.\<close>

definition nearest_even :: "real \<Rightarrow> int" where
  "nearest_even t =
     (if t - of_int \<lfloor>t\<rfloor> < 1 / 2 then \<lfloor>t\<rfloor>
      else if 1 / 2 < t - of_int \<lfloor>t\<rfloor> then \<lfloor>t\<rfloor> + 1
      else if even \<lfloor>t\<rfloor> then \<lfloor>t\<rfloor> else \<lfloor>t\<rfloor> + 1)"

text \<open>
  Rounding to nearest, ties to even: the multiple of the spacing nearest to \<open>x\<close>. A
  result of magnitude \<open>2 ^ 1024\<close> or more overflows to the infinity of the same sign.
\<close>

definition nearest64 :: "real \<Rightarrow> real" where
  "nearest64 x = of_int (nearest_even (x / spacing x)) * spacing x"

definition overflow64 :: real where
  "overflow64 = 2 ^ 1024"

definition round64 :: "real \<Rightarrow> binary64" where
  "round64 x =
     (if x = 0 then Finite 0
      else if overflow64 \<le> \<bar>nearest64 x\<bar> then (if 0 < x then PlusInf else MinusInf)
      else Finite (nearest64 x))"

text \<open>A real number is a binary64 number when rounding leaves it unchanged.\<close>

definition representable :: "real \<Rightarrow> bool" where
  "representable x \<longleftrightarrow> round64 x = Finite x"

text \<open>
  Negation, addition and subtraction of IEEE 754: a finite result is the exact result
  rounded; NaN propagates; the sum of the two opposite infinities is NaN.
\<close>

fun neg64 :: "binary64 \<Rightarrow> binary64" where
  "neg64 (Finite x) = Finite (- x)"
| "neg64 PlusInf = MinusInf"
| "neg64 MinusInf = PlusInf"
| "neg64 NaN = NaN"

fun add64 :: "binary64 \<Rightarrow> binary64 \<Rightarrow> binary64" where
  "add64 (Finite x) (Finite y) = round64 (x + y)"
| "add64 NaN b = NaN"
| "add64 a NaN = NaN"
| "add64 PlusInf MinusInf = NaN"
| "add64 MinusInf PlusInf = NaN"
| "add64 PlusInf b = PlusInf"
| "add64 a PlusInf = PlusInf"
| "add64 MinusInf b = MinusInf"
| "add64 a MinusInf = MinusInf"

definition sub64 :: "binary64 \<Rightarrow> binary64 \<Rightarrow> binary64" where
  "sub64 a b = add64 a (neg64 b)"

text \<open>The comparisons \<open>>=\<close> and \<open><\<close> of C++: both are false when an operand is NaN.\<close>

fun ge64 :: "binary64 \<Rightarrow> binary64 \<Rightarrow> bool" where
  "ge64 (Finite x) (Finite y) = (y \<le> x)"
| "ge64 PlusInf (Finite y) = True"
| "ge64 PlusInf PlusInf = True"
| "ge64 PlusInf MinusInf = True"
| "ge64 (Finite x) MinusInf = True"
| "ge64 MinusInf MinusInf = True"
| "ge64 (Finite x) PlusInf = False"
| "ge64 MinusInf (Finite y) = False"
| "ge64 MinusInf PlusInf = False"
| "ge64 NaN b = False"
| "ge64 a NaN = False"

fun lt64 :: "binary64 \<Rightarrow> binary64 \<Rightarrow> bool" where
  "lt64 (Finite x) (Finite y) = (x < y)"
| "lt64 MinusInf (Finite y) = True"
| "lt64 MinusInf PlusInf = True"
| "lt64 (Finite x) PlusInf = True"
| "lt64 PlusInf b = False"
| "lt64 a MinusInf = False"
| "lt64 NaN b = False"
| "lt64 a NaN = False"

section \<open>The methods over binary64\<close>

text \<open>
  The same classes and method bodies as above, with a binary64 field and the machine
  operations: \<open>balance += amount\<close> is \<open>add64\<close>, \<open>balance -= amount\<close> is \<open>sub64\<close>,
  \<open>balance >= amount\<close> is \<open>ge64\<close> and \<open>balance - amount < 0\<close> is \<open>lt64\<close> of the rounded
  difference.
\<close>

datatype line64 =
    Deposited64 binary64 string binary64
  | Withdrawn64 binary64 string binary64
  | Insufficient64 string
  | AmountWithdrawn64 binary64

datatype WithdrawableAccount64 =
    SavingAccount64 binary64
  | CurrentAccount64 binary64

datatype DepositOnlyAccount64 =
    FixedTermAccount64 binary64
  | Withdrawable64 WithdrawableAccount64

datatype BankAccount64 =
    BankAccount64 binary64
  | FixedDepositAccount64 binary64
  | CheatAccount64 binary64

fun balance64 :: "WithdrawableAccount64 \<Rightarrow> binary64" where
  "balance64 (SavingAccount64 b) = b"
| "balance64 (CurrentAccount64 b) = b"

fun balance_of64 :: "DepositOnlyAccount64 \<Rightarrow> binary64" where
  "balance_of64 (FixedTermAccount64 b) = b"
| "balance_of64 (Withdrawable64 w) = balance64 w"

definition new_SavingAccount64 :: WithdrawableAccount64 where
  "new_SavingAccount64 = SavingAccount64 (Finite 0)"

definition new_CurrentAccount64 :: WithdrawableAccount64 where
  "new_CurrentAccount64 = CurrentAccount64 (Finite 0)"

definition new_FixedTermAccount64 :: DepositOnlyAccount64 where
  "new_FixedTermAccount64 = FixedTermAccount64 (Finite 0)"

fun deposit64 :: "WithdrawableAccount64 \<Rightarrow> binary64 \<Rightarrow> WithdrawableAccount64 \<times> line64" where
  "deposit64 (SavingAccount64 b) amount =
     (SavingAccount64 (add64 b amount), Deposited64 amount ''Savings'' (add64 b amount))"
| "deposit64 (CurrentAccount64 b) amount =
     (CurrentAccount64 (add64 b amount), Deposited64 amount ''Current'' (add64 b amount))"

fun withdraw64 :: "WithdrawableAccount64 \<Rightarrow> binary64 \<Rightarrow> WithdrawableAccount64 \<times> line64" where
  "withdraw64 (SavingAccount64 b) amount =
     (if ge64 b amount
      then (SavingAccount64 (sub64 b amount), Withdrawn64 amount ''Savings'' (sub64 b amount))
      else (SavingAccount64 b, Insufficient64 ''Savings''))"
| "withdraw64 (CurrentAccount64 b) amount =
     (if ge64 b amount
      then (CurrentAccount64 (sub64 b amount), Withdrawn64 amount ''Current'' (sub64 b amount))
      else (CurrentAccount64 b, Insufficient64 ''Current''))"

fun deposit_only64 :: "DepositOnlyAccount64 \<Rightarrow> binary64 \<Rightarrow> DepositOnlyAccount64 \<times> line64" where
  "deposit_only64 (FixedTermAccount64 b) amount =
     (FixedTermAccount64 (add64 b amount), Deposited64 amount ''Fixed Term'' (add64 b amount))"
| "deposit_only64 (Withdrawable64 w) amount =
     (case deposit64 w amount of (w', l) \<Rightarrow> (Withdrawable64 w', l))"

fun refused64 :: "line64 \<Rightarrow> bool" where
  "refused64 (Insufficient64 l) = True"
| "refused64 (Deposited64 a l b) = False"
| "refused64 (Withdrawn64 a l b) = False"
| "refused64 (AmountWithdrawn64 b) = False"

fun BankAccount_withdraw64 :: "BankAccount64 \<Rightarrow> binary64 \<Rightarrow> BankAccount64 \<times> (exn + line64)" where
  "BankAccount_withdraw64 (BankAccount64 b) amount =
     (if lt64 (sub64 b amount) (Finite 0)
      then (BankAccount64 b, Inl (runtime_error ''Insufficient funds''))
      else (BankAccount64 (sub64 b amount), Inr (AmountWithdrawn64 (sub64 b amount))))"
| "BankAccount_withdraw64 (FixedDepositAccount64 b) amount =
     (FixedDepositAccount64 b, Inl (runtime_error ''Withdraw not allowed in Fixed Deposit''))"
| "BankAccount_withdraw64 (CheatAccount64 b) amount =
     (CheatAccount64 (sub64 b amount), Inr (AmountWithdrawn64 (sub64 b amount)))"

text \<open>An object or a line of the exact model, read as one of the binary64 model.\<close>

fun machine_line :: "line \<Rightarrow> line64" where
  "machine_line (Deposited a l b) = Deposited64 (Finite a) l (Finite b)"
| "machine_line (Withdrawn a l b) = Withdrawn64 (Finite a) l (Finite b)"
| "machine_line (Insufficient l) = Insufficient64 l"
| "machine_line (AmountWithdrawn b) = AmountWithdrawn64 (Finite b)"

fun machine :: "WithdrawableAccount \<Rightarrow> WithdrawableAccount64" where
  "machine (SavingAccount b) = SavingAccount64 (Finite b)"
| "machine (CurrentAccount b) = CurrentAccount64 (Finite b)"

fun machine_BankAccount :: "BankAccount \<Rightarrow> BankAccount64" where
  "machine_BankAccount (BankAccount b) = BankAccount64 (Finite b)"
| "machine_BankAccount (FixedDepositAccount b) = FixedDepositAccount64 (Finite b)"
| "machine_BankAccount (CheatAccount b) = CheatAccount64 (Finite b)"

text \<open>A caller that makes a sequence of calls on one withdrawable account, over binary64.\<close>

datatype call64 = Deposit64 binary64 | Withdraw64 binary64

fun invoke64 :: "WithdrawableAccount64 \<Rightarrow> call64 \<Rightarrow> WithdrawableAccount64 \<times> line64" where
  "invoke64 w (Deposit64 a) = deposit64 w a"
| "invoke64 w (Withdraw64 a) = withdraw64 w a"

fun invoke_all64 ::
  "WithdrawableAccount64 \<Rightarrow> call64 list \<Rightarrow> WithdrawableAccount64 \<times> line64 list" where
  "invoke_all64 w [] = (w, [])"
| "invoke_all64 w (c # cs) =
     (case invoke64 w c of (w1, l) \<Rightarrow>
      case invoke_all64 w1 cs of (w2, ls) \<Rightarrow> (w2, l # ls))"

section \<open>Properties\<close>

lemma fresh_balances:
  "balance new_SavingAccount = 0" "balance new_CurrentAccount = 0"
  "balance_of new_FixedTermAccount = 0"
  by (simp_all add: new_SavingAccount_def new_CurrentAccount_def new_FixedTermAccount_def)

section \<open>Construction\<close>

text \<open>
  C10. \<open>SavingAccount\<close>, \<open>CurrentAccount\<close> and \<open>FixedTermAccount\<close> have a constructor
  without parameters only, and a fresh object of each has balance exactly 0. The
  constructors have no \<open>throw\<close>: they are values of the object type, not of a type
  with an exception.
\<close>

theorem fresh_accounts_have_balance_zero:
  "new_SavingAccount = SavingAccount 0 \<and> balance new_SavingAccount = 0
   \<and> new_CurrentAccount = CurrentAccount 0 \<and> balance new_CurrentAccount = 0
   \<and> new_FixedTermAccount = FixedTermAccount 0 \<and> balance_of new_FixedTermAccount = 0"
  by (simp add: new_SavingAccount_def new_CurrentAccount_def new_FixedTermAccount_def)

text \<open>
  C6. Constructing a \<open>BankAccount\<close> (or one of its two derived classes) with a negative
  initial balance throws \<open>invalid_argument\<close> and creates no object; with an initial
  balance \<open>b \<ge> 0\<close> it creates an object whose balance is exactly \<open>b\<close>. So every object
  that a constructor returns has a balance that is not negative.
\<close>

theorem BankAccount_construction:
  "(b < 0 \<longrightarrow>
      new_BankAccount b = Inl (invalid_argument ''Balance can't be negative'')
    \<and> new_FixedDepositAccount b = Inl (invalid_argument ''Balance can't be negative'')
    \<and> new_CheatAccount b = Inl (invalid_argument ''Balance can't be negative''))
   \<and> (0 \<le> b \<longrightarrow>
      new_BankAccount b = Inr (BankAccount b)
    \<and> new_FixedDepositAccount b = Inr (FixedDepositAccount b)
    \<and> new_CheatAccount b = Inr (CheatAccount b))
   \<and> (\<forall>acc. new_BankAccount b = Inr acc \<or> new_FixedDepositAccount b = Inr acc
             \<or> new_CheatAccount b = Inr acc
         \<longrightarrow> BankAccount_balance acc = b \<and> 0 \<le> b)"
  by (auto simp: new_BankAccount_def new_FixedDepositAccount_def new_CheatAccount_def)

theorem BankAccount_construction_witness:
  "new_BankAccount (-10) = Inl (invalid_argument ''Balance can't be negative'')
   \<and> new_BankAccount 100 = Inr (BankAccount 100)
   \<and> new_FixedDepositAccount 100 = Inr (FixedDepositAccount 100)
   \<and> new_CheatAccount 100 = Inr (CheatAccount 100)"
  using BankAccount_construction [of "-10"] BankAccount_construction [of 100]
  by simp

section \<open>Deposit\<close>

lemma balance_deposit: "balance (fst (deposit w a)) = balance w + a"
  by (cases w) simp_all

lemma balance_of_deposit_only: "balance_of (fst (deposit_only d a)) = balance_of d + a"
proof (cases d)
  case (FixedTermAccount b)
  then show ?thesis by simp
next
  case (Withdrawable w)
  then show ?thesis
    using balance_deposit [of w a] by (simp add: split_beta)
qed

lemma deposit_not_refused: "\<not> refused (snd (deposit w a))"
  by (cases w) simp_all

lemma deposit_only_not_refused: "\<not> refused (snd (deposit_only d a))"
proof (cases d)
  case (FixedTermAccount b)
  then show ?thesis by simp
next
  case (Withdrawable w)
  then show ?thesis
    using deposit_not_refused [of w a] by (simp add: split_beta)
qed

text \<open>
  With the exact arithmetic of this model, for every class of the hierarchy and every
  amount \<open>a > 0\<close>: \<open>deposit(a)\<close> is carried out whatever the state (it has no refusing
  branch and no \<open>throw\<close>), the new balance is the old balance plus \<open>a\<close>, and the balance
  does not decrease. The three bodies are reached through a \<open>WithdrawableAccount*\<close>
  (\<open>deposit\<close>) or a \<open>DepositOnlyAccount*\<close> (\<open>deposit_only\<close>).
\<close>

lemma deposit_adds_amount:
  assumes "0 < a"
  shows "balance (fst (deposit w a)) = balance w + a
       \<and> balance w < balance (fst (deposit w a))
       \<and> \<not> refused (snd (deposit w a))
       \<and> balance_of (fst (deposit_only d a)) = balance_of d + a
       \<and> balance_of d < balance_of (fst (deposit_only d a))
       \<and> \<not> refused (snd (deposit_only d a))"
  using assms
  by (simp add: balance_deposit balance_of_deposit_only deposit_not_refused
      deposit_only_not_refused)

text \<open>
  \<open>deposit\<close> does not look at its argument. With the exact arithmetic of this model,
  for every class and every amount \<open>a\<close>, also zero or negative, the new balance is the
  old balance plus \<open>a\<close>; a negative amount makes the balance smaller, and on a fresh
  account it makes the balance negative.
\<close>

lemma deposit_does_not_validate:
  "balance (fst (deposit w a)) = balance w + a
   \<and> balance_of (fst (deposit_only d a)) = balance_of d + a
   \<and> \<not> refused (snd (deposit w a)) \<and> \<not> refused (snd (deposit_only d a))
   \<and> (a < 0 \<longrightarrow> balance (fst (deposit w a)) < balance w
                \<and> balance_of (fst (deposit_only d a)) < balance_of d)
   \<and> (a < 0 \<longrightarrow> balance (fst (deposit new_SavingAccount a)) < 0
                \<and> balance (fst (deposit new_CurrentAccount a)) < 0
                \<and> balance_of (fst (deposit_only new_FixedTermAccount a)) < 0)"
  by (simp add: balance_deposit balance_of_deposit_only deposit_not_refused
      deposit_only_not_refused fresh_balances)

section \<open>Withdraw\<close>

lemma withdraw_enough:
  "a \<le> balance w \<Longrightarrow> balance (fst (withdraw w a)) = balance w - a \<and> \<not> refused (snd (withdraw w a))"
  by (cases w) simp_all

lemma withdraw_short:
  "balance w < a \<Longrightarrow> fst (withdraw w a) = w \<and> refused (snd (withdraw w a))"
  by (cases w) simp_all

text \<open>
  The contract of \<open>withdraw\<close> with the exact arithmetic of this model, for the bodies
  that implement it: \<open>SavingAccount\<close>, \<open>CurrentAccount\<close> and the base class
  \<open>BankAccount\<close>. For every amount \<open>a > 0\<close>: when \<open>a \<le> balance\<close> the withdrawal is
  carried out and the new balance is the old one minus \<open>a\<close>; when \<open>a > balance\<close> the
  withdrawal is refused for insufficient funds (the two classes of the hierarchy
  print the refusal, \<open>BankAccount\<close> throws \<open>runtime_error\<close>) and the object is unchanged.
\<close>

lemma withdraw_contract:
  assumes "0 < a"
  shows "(a \<le> balance w \<longrightarrow>
            balance (fst (withdraw w a)) = balance w - a \<and> \<not> refused (snd (withdraw w a)))
       \<and> (balance w < a \<longrightarrow>
            fst (withdraw w a) = w \<and> refused (snd (withdraw w a)))
       \<and> withdraw (SavingAccount b) a =
            (if a \<le> b then (SavingAccount (b - a), Withdrawn a ''Savings'' (b - a))
             else (SavingAccount b, Insufficient ''Savings''))
       \<and> withdraw (CurrentAccount b) a =
            (if a \<le> b then (CurrentAccount (b - a), Withdrawn a ''Current'' (b - a))
             else (CurrentAccount b, Insufficient ''Current''))
       \<and> BankAccount_withdraw (BankAccount b) a =
            (if a \<le> b then (BankAccount (b - a), Inr (AmountWithdrawn (b - a)))
             else (BankAccount b, Inl (runtime_error ''Insufficient funds'')))"
  using withdraw_enough [of a w] withdraw_short [of w a] by auto

text \<open>
  The two overrides of \<open>BankAccount::withdraw\<close> do not keep this contract.
  \<^item> \<open>CheatAccount\<close> with balance 100, \<open>withdraw(200)\<close>: the amount is above the
    balance, and the call is still carried out and changes the balance, to -100.
  \<^item> \<open>FixedDepositAccount\<close> with balance 100, \<open>withdraw(50)\<close>: the amount is positive
    and covered by the balance, and the call still ends in an exception.
  The base class, on the same two inputs, refuses the first for insufficient funds
  with the balance unchanged and carries out the second.
\<close>

lemma overrides_break_withdraw_contract:
  "BankAccount_balance (CheatAccount 100) < 200
   \<and> BankAccount_withdraw (CheatAccount 100) 200
       = (CheatAccount (-100), Inr (AmountWithdrawn (-100)))
   \<and> BankAccount_withdraw (BankAccount 100) 200
       = (BankAccount 100, Inl (runtime_error ''Insufficient funds''))
   \<and> (0::real) < 50 \<and> 50 \<le> BankAccount_balance (FixedDepositAccount 100)
   \<and> BankAccount_withdraw (FixedDepositAccount 100) 50
       = (FixedDepositAccount 100,
          Inl (runtime_error ''Withdraw not allowed in Fixed Deposit''))
   \<and> BankAccount_withdraw (BankAccount 100) 50 = (BankAccount 50, Inr (AmountWithdrawn 50))"
  by simp

section \<open>The invariant: the balance is never negative\<close>

text \<open>
  Where the invariant is kept: \<open>withdraw\<close> of the hierarchy and of \<open>BankAccount\<close> and
  \<open>FixedDepositAccount\<close> keeps a balance that is not negative for every amount, and
  \<open>deposit\<close> keeps it for every amount that is not negative.
\<close>

lemma withdraw_keeps_invariant:
  "0 \<le> balance w \<Longrightarrow> 0 \<le> balance (fst (withdraw w a))"
  by (cases w) simp_all

lemma deposit_keeps_invariant:
  "0 \<le> balance w \<Longrightarrow> 0 \<le> a \<Longrightarrow> 0 \<le> balance (fst (deposit w a))"
  by (simp add: balance_deposit)

lemma deposit_only_keeps_invariant:
  "0 \<le> balance_of d \<Longrightarrow> 0 \<le> a \<Longrightarrow> 0 \<le> balance_of (fst (deposit_only d a))"
  by (simp add: balance_of_deposit_only)

lemma BankAccount_withdraw_keeps_invariant:
  "0 \<le> b \<Longrightarrow> 0 \<le> BankAccount_balance (fst (BankAccount_withdraw (BankAccount b) a))"
  "0 \<le> b \<Longrightarrow> 0 \<le> BankAccount_balance (fst (BankAccount_withdraw (FixedDepositAccount b) a))"
  by simp_all

lemma CheatAccount_withdraw_balance:
  "BankAccount_balance (fst (BankAccount_withdraw (CheatAccount b) a)) = b - a"
  by simp

text \<open>
  C1. The invariant fails in \<open>CheatAccount::withdraw\<close>, which subtracts without a
  check. The input is the one in the comment of \<open>main\<close>: a \<open>CheatAccount\<close> constructed
  with balance 100 (the invariant holds), then \<open>withdraw(200)\<close>: the call returns
  normally and the balance is -100.
\<close>

theorem CheatAccount_withdraw_makes_balance_negative:
  "new_CheatAccount 100 = Inr (CheatAccount 100)
   \<and> 0 \<le> BankAccount_balance (CheatAccount 100)
   \<and> BankAccount_withdraw (CheatAccount 100) 200
       = (CheatAccount (-100), Inr (AmountWithdrawn (-100)))
   \<and> BankAccount_balance (fst (BankAccount_withdraw (CheatAccount 100) 200)) < 0"
  by (simp add: new_CheatAccount_def new_BankAccount_def)

section \<open>Substitution\<close>

lemma FixedDepositAccount_withdraw_throws:
  "BankAccount_withdraw (FixedDepositAccount b) a
     = (FixedDepositAccount b, Inl (runtime_error ''Withdraw not allowed in Fixed Deposit''))"
  by simp

text \<open>
  C5. \<open>FixedDepositAccount\<close> overrides \<open>withdraw\<close> of \<open>BankAccount\<close> with a body that
  only throws. The input is the one in the comment of \<open>main\<close>: constructed with
  balance 100, \<open>withdraw(50)\<close> has \<open>0 < 50 \<le> 100\<close> and still ends in \<open>runtime_error\<close>,
  with the balance unchanged.
\<close>

theorem FixedDepositAccount_withdraw_rejects_covered_amount:
  "new_FixedDepositAccount 100 = Inr (FixedDepositAccount 100)
   \<and> (0::real) < 50 \<and> 50 \<le> BankAccount_balance (FixedDepositAccount 100)
   \<and> BankAccount_withdraw (FixedDepositAccount 100) 50
       = (FixedDepositAccount 100,
          Inl (runtime_error ''Withdraw not allowed in Fixed Deposit''))"
  by (simp add: new_FixedDepositAccount_def new_BankAccount_def)

text \<open>
  Within the hierarchy of \<open>WithdrawableAccount\<close> substitution is safe: two objects with
  the same balance, of either class, end with the same balance after any sequence of
  calls, and each call is refused in one run exactly when it is refused in the other.
\<close>

lemma invoke_same_balance:
  assumes "balance w = balance w'"
  shows "balance (fst (invoke w c)) = balance (fst (invoke w' c))
       \<and> refused (snd (invoke w c)) = refused (snd (invoke w' c))"
  using assms by (cases w; cases w'; cases c) auto

lemma invoke_all_same_balance:
  "balance w = balance w' \<Longrightarrow>
     balance (fst (invoke_all w cs)) = balance (fst (invoke_all w' cs))
   \<and> map refused (snd (invoke_all w cs)) = map refused (snd (invoke_all w' cs))"
proof (induction cs arbitrary: w w')
  case Nil
  then show ?case by simp
next
  case (Cons c cs)
  from invoke_same_balance [OF Cons.prems, of c]
  have step: "balance (fst (invoke w c)) = balance (fst (invoke w' c))"
    and out: "refused (snd (invoke w c)) = refused (snd (invoke w' c))"
    by simp_all
  from Cons.IH [OF step] out show ?case
    by (simp add: split_beta)
qed

lemma SavingAccount_CurrentAccount_substitutable:
  "balance (fst (invoke_all (SavingAccount b) cs)) = balance (fst (invoke_all (CurrentAccount b) cs))
   \<and> map refused (snd (invoke_all (SavingAccount b) cs))
     = map refused (snd (invoke_all (CurrentAccount b) cs))"
  by (rule invoke_all_same_balance) simp

lemma same_balance_step:
  assumes "balance w = balance w'"
  shows "balance (fst (withdraw (fst (deposit w 1000)) 500))
           = balance (fst (withdraw (fst (deposit w' 1000)) 500))"
    and "refused (snd (deposit w 1000)) = refused (snd (deposit w' 1000))"
    and "refused (snd (withdraw (fst (deposit w 1000)) 500))
           = refused (snd (withdraw (fst (deposit w' 1000)) 500))"
  using assms by (cases w; cases w'; simp)+

lemma withdrawable_loop_same_balance:
  assumes "\<forall>p. rel_option same_balance (h p) (h' p)"
  shows "rel_option (\<lambda>r r'. (\<forall>p. rel_option same_balance (fst r p) (fst r' p))
                            \<and> map refused (snd r) = map refused (snd r'))
           (withdrawable_loop ws h) (withdrawable_loop ws h')"
  using assms
proof (induction ws arbitrary: h h')
  case Nil
  then show ?case by simp
next
  case (Cons p ps)
  from Cons.prems have rel: "rel_option same_balance (h p) (h' p)" by blast
  show ?case
  proof (cases "h p")
    case None
    with rel have "h' p = None" by (cases "h' p") simp_all
    with None show ?thesis by simp
  next
    case (Some a)
    with rel obtain a' where Some': "h' p = Some a'" and same: "same_balance a a'"
      by (cases "h' p") simp_all
    show ?thesis
    proof (cases a)
      case (FixedTermAccount b)
      with same obtain b' where "a' = FixedTermAccount b'" by (cases a') simp_all
      with FixedTermAccount Some Some' show ?thesis by simp
    next
      case (Withdrawable w)
      with same obtain w' where a': "a' = Withdrawable w'" and bal: "balance w = balance w'"
        by (cases a') simp_all
      let ?w2 = "fst (withdraw (fst (deposit w 1000)) 500)"
      let ?w2' = "fst (withdraw (fst (deposit w' 1000)) 500)"
      have next_heaps: "\<forall>q. rel_option same_balance ((h(p \<mapsto> Withdrawable ?w2)) q)
                                                       ((h'(p \<mapsto> Withdrawable ?w2')) q)"
        using Cons.prems same_balance_step(1) [OF bal] by simp
      let ?r = "withdrawable_loop ps (h(p \<mapsto> Withdrawable ?w2))"
      let ?r' = "withdrawable_loop ps (h'(p \<mapsto> Withdrawable ?w2'))"
      note IH = Cons.IH [OF next_heaps]
      note lines = same_balance_step(2,3) [OF bal]
      show ?thesis
      proof (cases ?r)
        case None
        with IH have "?r' = None" by (simp only: rel_option_None1)
        with None Some Some' Withdrawable a' show ?thesis
          by (simp add: split_beta del: fun_upd_apply)
      next
        case r: (Some x)
        with IH obtain x' where r': "?r' = Some x'"
          and heaps: "\<forall>q. rel_option same_balance (fst x q) (fst x' q)"
          and outs: "map refused (snd x) = map refused (snd x')"
          by (auto simp only: option_rel_Some1)
        from r r' heaps outs lines Some Some' Withdrawable a' show ?thesis
          by (simp add: split_beta del: fun_upd_apply)
      qed
    qed
  qed
qed

lemma invoke64_same_balance:
  assumes "balance64 v = balance64 v'"
  shows "balance64 (fst (invoke64 v c)) = balance64 (fst (invoke64 v' c))
       \<and> refused64 (snd (invoke64 v c)) = refused64 (snd (invoke64 v' c))"
  using assms by (cases v; cases v'; cases c) auto

lemma invoke_all64_same_balance:
  "balance64 v = balance64 v' \<Longrightarrow>
     balance64 (fst (invoke_all64 v cs)) = balance64 (fst (invoke_all64 v' cs))
   \<and> map refused64 (snd (invoke_all64 v cs)) = map refused64 (snd (invoke_all64 v' cs))"
proof (induction cs arbitrary: v v')
  case Nil
  then show ?case by simp
next
  case (Cons c cs)
  from invoke64_same_balance [OF Cons.prems, of c]
  have step: "balance64 (fst (invoke64 v c)) = balance64 (fst (invoke64 v' c))"
    and out: "refused64 (snd (invoke64 v c)) = refused64 (snd (invoke64 v' c))"
    by simp_all
  from Cons.IH [OF step] out show ?case
    by (simp add: split_beta)
qed

text \<open>
  C4. Substitution within the withdrawable accounts. Take two withdrawable objects
  with the same balance, of either class.
  \<^item> After any sequence of \<open>deposit\<close> and \<open>withdraw\<close> calls, the same for both, the two
    balances are the same, and each call is refused in one run exactly when it is
    refused in the other. This holds with exact arithmetic and with binary64
    arithmetic (where the balance may also be an infinity or NaN): both classes run
    the same operations on the same values.
  \<^item> The same holds for the client: run the withdrawable loop of
    \<open>processTransactions\<close> over the same vector on two heaps whose objects have the same
    balances, with one withdrawable class standing in for the other at any address.
    Either both runs are undefined, or both return, the heaps again agree on every
    balance, and the two transcripts have a refusal at the same places.
\<close>

theorem withdrawable_accounts_substitutable:
  assumes "balance w = balance w'"
      and "balance64 v = balance64 v'"
      and "\<forall>p. rel_option same_balance (h p) (h' p)"
  shows "balance (fst (invoke_all w cs)) = balance (fst (invoke_all w' cs))
       \<and> map refused (snd (invoke_all w cs)) = map refused (snd (invoke_all w' cs))
       \<and> balance64 (fst (invoke_all64 v ds)) = balance64 (fst (invoke_all64 v' ds))
       \<and> map refused64 (snd (invoke_all64 v ds)) = map refused64 (snd (invoke_all64 v' ds))
       \<and> rel_option (\<lambda>r r'. (\<forall>p. rel_option same_balance (fst r p) (fst r' p))
                            \<and> map refused (snd r) = map refused (snd r'))
           (withdrawable_loop ws h) (withdrawable_loop ws h')"
  using invoke_all_same_balance [OF assms(1), of cs]
    invoke_all64_same_balance [OF assms(2), of ds]
    withdrawable_loop_same_balance [OF assms(3), of ws]
  by simp

theorem withdrawable_accounts_substitutable_witness:
  "balance (SavingAccount 100) = balance (CurrentAccount 100)
   \<and> balance64 (SavingAccount64 (Finite 100)) = balance64 (CurrentAccount64 (Finite 100))
   \<and> balance (fst (invoke_all (SavingAccount 100) [Deposit 1000, Withdraw 500, Withdraw 5000])) = 600
   \<and> balance (fst (invoke_all (CurrentAccount 100) [Deposit 1000, Withdraw 500, Withdraw 5000])) = 600
   \<and> map refused (snd (invoke_all (SavingAccount 100) [Deposit 1000, Withdraw 500, Withdraw 5000]))
       = [False, False, True]
   \<and> map refused (snd (invoke_all (CurrentAccount 100) [Deposit 1000, Withdraw 500, Withdraw 5000]))
       = [False, False, True]
   \<and> balance64 (fst (invoke_all64 (SavingAccount64 (Finite 100))
                        [Deposit64 (Finite 1000), Withdraw64 (Finite 500)]))
       = balance64 (fst (invoke_all64 (CurrentAccount64 (Finite 100))
                        [Deposit64 (Finite 1000), Withdraw64 (Finite 500)]))
   \<and> rel_option (\<lambda>r r'. rel_option same_balance (fst r 0) (fst r' 0)
                        \<and> map refused (snd r) = map refused (snd r'))
       (withdrawable_loop [0] [0 \<mapsto> Withdrawable (SavingAccount 0)])
       (withdrawable_loop [0] [0 \<mapsto> Withdrawable (CurrentAccount 0)])"
proof -
  have bal: "balance (SavingAccount 100) = balance (CurrentAccount 100)" by simp
  have bal64: "balance64 (SavingAccount64 (Finite 100)) = balance64 (CurrentAccount64 (Finite 100))"
    by simp
  have heaps: "\<forall>p. rel_option same_balance
                 ([0 \<mapsto> Withdrawable (SavingAccount 0)] p)
                 ([0 \<mapsto> Withdrawable (CurrentAccount 0)] p)"
    by simp
  show ?thesis
    using withdrawable_accounts_substitutable
      [OF bal bal64 heaps, of "[Deposit 1000, Withdraw 500, Withdraw 5000]"
        "[Deposit64 (Finite 1000), Withdraw64 (Finite 500)]" "[0]"]
    by simp
qed

text \<open>
  Outside that hierarchy, a \<open>FixedDepositAccount\<close> does not stand in for a
  \<open>BankAccount\<close>: from the same balance 100 and the same call \<open>withdraw(50)\<close>, the
  first is carried out and ends with balance 50, the second throws and ends with
  balance 100.
\<close>

lemma FixedDepositAccount_not_substitutable_for_BankAccount:
  "BankAccount_balance (BankAccount 100) = BankAccount_balance (FixedDepositAccount 100)
   \<and> BankAccount_withdraw (BankAccount 100) 50 = (BankAccount 50, Inr (AmountWithdrawn 50))
   \<and> BankAccount_withdraw (FixedDepositAccount 100) 50
       = (FixedDepositAccount 100,
          Inl (runtime_error ''Withdraw not allowed in Fixed Deposit''))
   \<and> BankAccount_balance (fst (BankAccount_withdraw (BankAccount 100) 50))
       \<noteq> BankAccount_balance (fst (BankAccount_withdraw (FixedDepositAccount 100) 50))"
  by simp

section \<open>The client\<close>

lemma withdrawable_loop_effect:
  assumes "\<forall>p\<in>set ws. \<exists>w. h p = Some (Withdrawable w)" and "distinct ws"
  shows "withdrawable_loop ws h = Some (after_w h ws, concat (map (lines_w h) ws))"
  using assms
proof (induction ws arbitrary: h)
  case Nil
  then show ?case by (simp add: after_w_def)
next
  case (Cons p ps)
  from Cons.prems obtain w where hp: "h p = Some (Withdrawable w)" by auto
  let ?w2 = "fst (withdraw (fst (deposit w 1000)) 500)"
  let ?h1 = "h(p \<mapsto> Withdrawable ?w2)"
  from Cons.prems have notin: "p \<notin> set ps" and dist: "distinct ps" by simp_all
  have same: "\<And>q. q \<in> set ps \<Longrightarrow> ?h1 q = h q" using notin by auto
  have valid: "\<forall>q\<in>set ps. \<exists>w. ?h1 q = Some (Withdrawable w)"
    using Cons.prems(1) same by simp
  have IH: "withdrawable_loop ps ?h1 = Some (after_w ?h1 ps, concat (map (lines_w ?h1) ps))"
    by (rule Cons.IH [OF valid dist])
  have heap_eq: "after_w ?h1 ps = after_w h (p # ps)"
    using notin hp by (auto simp: after_w_def fun_eq_iff)
  have lines_eq: "map (lines_w ?h1) ps = map (lines_w h) ps"
    using same by (simp add: lines_w_def)
  have here: "lines_w h p = [snd (deposit w 1000), snd (withdraw (fst (deposit w 1000)) 500)]"
    using hp by (simp add: lines_w_def)
  show ?case
    using hp IH heap_eq lines_eq here by (simp add: split_beta)
qed

lemma deposit_only_loop_effect:
  assumes "\<forall>p\<in>set ds. h p \<noteq> None" and "distinct ds"
  shows "deposit_only_loop ds h = Some (after_d h ds, concat (map (lines_d h) ds))"
  using assms
proof (induction ds arbitrary: h)
  case Nil
  then show ?case by (simp add: after_d_def)
next
  case (Cons p ps)
  from Cons.prems obtain a where hp: "h p = Some a" by auto
  let ?h1 = "h(p \<mapsto> fst (deposit_only a 5000))"
  from Cons.prems have notin: "p \<notin> set ps" and dist: "distinct ps" by simp_all
  have same: "\<And>q. q \<in> set ps \<Longrightarrow> ?h1 q = h q" using notin by auto
  have valid: "\<forall>q\<in>set ps. ?h1 q \<noteq> None"
    using Cons.prems(1) same by simp
  have IH: "deposit_only_loop ps ?h1 = Some (after_d ?h1 ps, concat (map (lines_d ?h1) ps))"
    by (rule Cons.IH [OF valid dist])
  have heap_eq: "after_d ?h1 ps = after_d h (p # ps)"
    using notin hp by (auto simp: after_d_def fun_eq_iff)
  have lines_eq: "map (lines_d ?h1) ps = map (lines_d h) ps"
    using same by (simp add: lines_d_def)
  have here: "lines_d h p = [snd (deposit_only a 5000)]"
    using hp by (simp add: lines_d_def)
  show ?case
    using hp IH heap_eq lines_eq here by (simp add: split_beta)
qed

lemma length_lines_w:
  "\<forall>p\<in>set ws. \<exists>w. h p = Some (Withdrawable w) \<Longrightarrow>
     length (concat (map (lines_w h) ws)) = 2 * length ws"
  by (induction ws) (auto simp: lines_w_def)

lemma length_lines_d:
  "\<forall>p\<in>set ds. h p \<noteq> None \<Longrightarrow> length (concat (map (lines_d h) ds)) = length ds"
  by (induction ds) (auto simp: lines_d_def)

text \<open>
  When no account occurs twice in the two vectors, the statement is one about each
  account: every account of the withdrawable vector ends as \<open>deposit(1000)\<close> followed
  by \<open>withdraw(500)\<close> leaves it, every account of the deposit-only vector as one
  \<open>deposit(5000)\<close> leaves it, and no other object changes.
\<close>

lemma processTransactions_effect:
  assumes valid_w: "\<forall>p\<in>set (withdrawableAccounts c). \<exists>w. h p = Some (Withdrawable w)"
      and valid_d: "\<forall>p\<in>set (depositOnlyAccounts c). h p \<noteq> None"
      and disjoint: "distinct (withdrawableAccounts c @ depositOnlyAccounts c)"
  shows "\<exists>h' out. processTransactions c h = Some (h', out)
     \<and> (\<forall>p w. p \<in> set (withdrawableAccounts c) \<and> h p = Some (Withdrawable w) \<longrightarrow>
            h' p = Some (Withdrawable (fst (withdraw (fst (deposit w 1000)) 500))))
     \<and> (\<forall>p a. p \<in> set (depositOnlyAccounts c) \<and> h p = Some a \<longrightarrow>
            h' p = Some (fst (deposit_only a 5000)))
     \<and> (\<forall>p. p \<notin> set (withdrawableAccounts c) \<and> p \<notin> set (depositOnlyAccounts c) \<longrightarrow> h' p = h p)
     \<and> out = concat (map (lines_w h) (withdrawableAccounts c))
             @ concat (map (lines_d h) (depositOnlyAccounts c))
     \<and> length out = 2 * length (withdrawableAccounts c) + length (depositOnlyAccounts c)"
proof -
  let ?ws = "withdrawableAccounts c" and ?ds = "depositOnlyAccounts c"
  let ?h1 = "after_w h ?ws"
  from disjoint have dw: "distinct ?ws" and dd: "distinct ?ds"
    and apart: "set ?ws \<inter> set ?ds = {}" by simp_all
  have first: "withdrawable_loop ?ws h = Some (?h1, concat (map (lines_w h) ?ws))"
    by (rule withdrawable_loop_effect [OF valid_w dw])
  have same: "\<And>q. q \<in> set ?ds \<Longrightarrow> ?h1 q = h q"
    using apart by (auto simp: after_w_def)
  have valid1: "\<forall>q\<in>set ?ds. ?h1 q \<noteq> None"
    using valid_d same by simp
  have second: "deposit_only_loop ?ds ?h1 = Some (after_d ?h1 ?ds, concat (map (lines_d ?h1) ?ds))"
    by (rule deposit_only_loop_effect [OF valid1 dd])
  have lines_eq: "map (lines_d ?h1) ?ds = map (lines_d h) ?ds"
    using same by (simp add: lines_d_def)
  have run: "processTransactions c h
      = Some (after_d ?h1 ?ds, concat (map (lines_w h) ?ws) @ concat (map (lines_d h) ?ds))"
    using first second lines_eq by (simp add: processTransactions_def)
  have w_part: "\<forall>p w. p \<in> set ?ws \<and> h p = Some (Withdrawable w) \<longrightarrow>
      after_d ?h1 ?ds p = Some (Withdrawable (fst (withdraw (fst (deposit w 1000)) 500)))"
    using apart by (auto simp: after_d_def after_w_def)
  have d_part: "\<forall>p a. p \<in> set ?ds \<and> h p = Some a \<longrightarrow>
      after_d ?h1 ?ds p = Some (fst (deposit_only a 5000))"
    using same by (auto simp: after_d_def)
  have rest: "\<forall>p. p \<notin> set ?ws \<and> p \<notin> set ?ds \<longrightarrow> after_d ?h1 ?ds p = h p"
    by (simp add: after_d_def after_w_def)
  have len_w: "length (concat (map (lines_w h) ?ws)) = 2 * length ?ws"
    by (rule length_lines_w [OF valid_w])
  have len_d: "length (concat (map (lines_d h) ?ds)) = length ?ds"
    by (rule length_lines_d [OF valid_d])
  show ?thesis
    using run w_part d_part rest len_w len_d by simp
qed


lemmas main_defs = main_client_def main_heap_def new_BankClient_def
  new_SavingAccount_def new_CurrentAccount_def new_FixedTermAccount_def

lemma deposit_line: "from_deposit a (snd (deposit w a))"
  by (cases w) simp_all

lemma deposit_only_line: "from_deposit a (snd (deposit_only d a))"
proof (cases d)
  case (FixedTermAccount b)
  then show ?thesis by simp
next
  case (Withdrawable w)
  then show ?thesis using deposit_line [of a w] by (simp add: split_beta)
qed

lemma withdraw_line: "from_withdraw a (snd (withdraw w a))"
  by (cases w) simp_all

lemma withdrawable_entry_keeps:
  "(\<exists>w. h q = Some (Withdrawable w)) \<Longrightarrow> (\<exists>w. withdrawable_entry h p q = Some (Withdrawable w))"
  "h q \<noteq> None \<Longrightarrow> withdrawable_entry h p q \<noteq> None"
  by (auto simp: withdrawable_entry_def split: option.splits DepositOnlyAccount.splits)

lemma foldl_withdrawable_entry_keeps:
  "h q \<noteq> None \<Longrightarrow> foldl withdrawable_entry h ws q \<noteq> None"
proof (induction ws arbitrary: h)
  case Nil
  then show ?case by simp
next
  case (Cons p ps)
  have "withdrawable_entry h p q \<noteq> None"
    using Cons.prems by (rule withdrawable_entry_keeps(2))
  then have "foldl withdrawable_entry (withdrawable_entry h p) ps q \<noteq> None"
    by (rule Cons.IH)
  then show ?case by simp
qed

lemma withdrawable_loop_per_entry:
  assumes "\<forall>p\<in>set ws. \<exists>w. h p = Some (Withdrawable w)"
  shows "\<exists>out. withdrawable_loop ws h = Some (foldl withdrawable_entry h ws, out)
           \<and> length out = 2 * length ws
           \<and> (\<forall>m rest. transcript_shape (length ws) m (out @ rest) = transcript_shape 0 m rest)"
  using assms
proof (induction ws arbitrary: h)
  case Nil
  then show ?case by simp
next
  case (Cons p ps)
  from Cons.prems obtain w where hp: "h p = Some (Withdrawable w)" by auto
  let ?h1 = "withdrawable_entry h p"
  have valid: "\<forall>q\<in>set ps. \<exists>w. ?h1 q = Some (Withdrawable w)"
    using Cons.prems by (simp add: withdrawable_entry_keeps)
  from Cons.IH [OF valid] obtain out where
    run: "withdrawable_loop ps ?h1 = Some (foldl withdrawable_entry ?h1 ps, out)"
    and len: "length out = 2 * length ps"
    and shape: "\<forall>m rest. transcript_shape (length ps) m (out @ rest) = transcript_shape 0 m rest"
    by blast
  have h1: "?h1 = h(p \<mapsto> Withdrawable (fst (withdraw (fst (deposit w 1000)) 500)))"
    using hp by (simp add: withdrawable_entry_def)
  let ?out = "snd (deposit w 1000) # snd (withdraw (fst (deposit w 1000)) 500) # out"
  have "withdrawable_loop (p # ps) h = Some (foldl withdrawable_entry h (p # ps), ?out)"
    using hp run h1 by (simp add: split_beta)
  moreover have "length ?out = 2 * length (p # ps)" using len by simp
  moreover have "\<forall>m rest. transcript_shape (length (p # ps)) m (?out @ rest) = transcript_shape 0 m rest"
    using shape by (simp add: deposit_line withdraw_line)
  ultimately show ?case by blast
qed

lemma deposit_only_entry_keeps:
  "h q \<noteq> None \<Longrightarrow> deposit_only_entry h p q \<noteq> None"
  by (auto simp: deposit_only_entry_def split: option.splits)

lemma deposit_only_loop_per_entry:
  assumes "\<forall>p\<in>set ds. h p \<noteq> None"
  shows "\<exists>out. deposit_only_loop ds h = Some (foldl deposit_only_entry h ds, out)
           \<and> length out = length ds
           \<and> transcript_shape 0 (length ds) out"
  using assms
proof (induction ds arbitrary: h)
  case Nil
  then show ?case by simp
next
  case (Cons p ps)
  from Cons.prems obtain a where hp: "h p = Some a" by auto
  let ?h1 = "deposit_only_entry h p"
  have valid: "\<forall>q\<in>set ps. ?h1 q \<noteq> None"
    using Cons.prems by (simp add: deposit_only_entry_keeps)
  from Cons.IH [OF valid] obtain out where
    run: "deposit_only_loop ps ?h1 = Some (foldl deposit_only_entry ?h1 ps, out)"
    and len: "length out = length ps"
    and shape: "transcript_shape 0 (length ps) out"
    by blast
  have h1: "?h1 = h(p \<mapsto> fst (deposit_only a 5000))"
    using hp by (simp add: deposit_only_entry_def)
  let ?out = "snd (deposit_only a 5000) # out"
  have "deposit_only_loop (p # ps) h = Some (foldl deposit_only_entry h (p # ps), ?out)"
    using hp run h1 by (simp add: split_beta)
  moreover have "length ?out = length (p # ps)" using len by simp
  moreover have "transcript_shape 0 (length (p # ps)) ?out"
    using shape by (simp add: deposit_only_line)
  ultimately show ?case by blast
qed

text \<open>
  C7. \<open>processTransactions\<close> on a client whose vectors hold valid pointers (any
  vectors: an account may occur more than once). It returns, and
  \<^item> the heap is the one obtained by going through the withdrawable vector in order
    and giving the account of each entry one \<open>deposit(1000)\<close> followed by one
    \<open>withdraw(500)\<close>, then through the deposit-only vector and giving the account of
    each entry one \<open>deposit(5000)\<close>;
  \<^item> the transcript has, for each withdrawable entry, the line of a \<open>deposit(1000)\<close>
    then the line of a \<open>withdraw(500)\<close>, and after these one line of a
    \<open>deposit(5000)\<close> for each deposit-only entry, and nothing else: no withdrawal is
    made through the deposit-only vector.
  The calls and their amounts are fixed by the vector an entry is in; the dynamic
  class of the object only selects the body of the virtual method.
\<close>

theorem processTransactions_per_entry:
  assumes valid_w: "\<forall>p\<in>set (withdrawableAccounts c). \<exists>w. h p = Some (Withdrawable w)"
      and valid_d: "\<forall>p\<in>set (depositOnlyAccounts c). h p \<noteq> None"
  shows "\<exists>out. processTransactions c h =
            Some (foldl deposit_only_entry
                    (foldl withdrawable_entry h (withdrawableAccounts c))
                    (depositOnlyAccounts c), out)
     \<and> length out = 2 * length (withdrawableAccounts c) + length (depositOnlyAccounts c)
     \<and> transcript_shape (length (withdrawableAccounts c)) (length (depositOnlyAccounts c)) out"
proof -
  let ?ws = "withdrawableAccounts c" and ?ds = "depositOnlyAccounts c"
  let ?h1 = "foldl withdrawable_entry h ?ws"
  from withdrawable_loop_per_entry [OF valid_w] obtain out1 where
    first: "withdrawable_loop ?ws h = Some (?h1, out1)"
    and len1: "length out1 = 2 * length ?ws"
    and shape1: "\<forall>m rest. transcript_shape (length ?ws) m (out1 @ rest) = transcript_shape 0 m rest"
    by blast
  have valid1: "\<forall>q\<in>set ?ds. ?h1 q \<noteq> None"
    using valid_d by (simp add: foldl_withdrawable_entry_keeps)
  from deposit_only_loop_per_entry [OF valid1] obtain out2 where
    second: "deposit_only_loop ?ds ?h1 = Some (foldl deposit_only_entry ?h1 ?ds, out2)"
    and len2: "length out2 = length ?ds"
    and shape2: "transcript_shape 0 (length ?ds) out2"
    by blast
  have "processTransactions c h = Some (foldl deposit_only_entry ?h1 ?ds, out1 @ out2)"
    using first second by (simp add: processTransactions_def)
  moreover have "length (out1 @ out2) = 2 * length ?ws + length ?ds"
    using len1 len2 by simp
  moreover have "transcript_shape (length ?ws) (length ?ds) (out1 @ out2)"
    using shape1 shape2 by simp
  ultimately show ?thesis by blast
qed

theorem processTransactions_per_entry_witness:
  "withdrawableAccounts main_client = [0, 1] \<and> depositOnlyAccounts main_client = [2]
   \<and> main_heap 0 = Some (Withdrawable (SavingAccount 0))
   \<and> main_heap 1 = Some (Withdrawable (CurrentAccount 0))
   \<and> main_heap 2 = Some (FixedTermAccount 0)
   \<and> (\<exists>h'. processTransactions main_client main_heap =
          Some (h', [Deposited 1000 ''Savings'' 1000, Withdrawn 500 ''Savings'' 500,
                     Deposited 1000 ''Current'' 1000, Withdrawn 500 ''Current'' 500,
                     Deposited 5000 ''Fixed Term'' 5000])
        \<and> h' 0 = Some (Withdrawable (SavingAccount 500))
        \<and> h' 1 = Some (Withdrawable (CurrentAccount 500))
        \<and> h' 2 = Some (FixedTermAccount 5000))
   \<and> transcript_shape 2 1
        [Deposited 1000 ''Savings'' 1000, Withdrawn 500 ''Savings'' 500,
         Deposited 1000 ''Current'' 1000, Withdrawn 500 ''Current'' 500,
         Deposited 5000 ''Fixed Term'' 5000]"
proof -
  have valid_w: "\<forall>p\<in>set (withdrawableAccounts main_client). \<exists>w. main_heap p = Some (Withdrawable w)"
    by (simp add: main_defs)
  have valid_d: "\<forall>p\<in>set (depositOnlyAccounts main_client). main_heap p \<noteq> None"
    by (simp add: main_defs)
  have start: "withdrawableAccounts main_client = [0, 1] \<and> depositOnlyAccounts main_client = [2]
      \<and> main_heap 0 = Some (Withdrawable (SavingAccount 0))
      \<and> main_heap 1 = Some (Withdrawable (CurrentAccount 0))
      \<and> main_heap 2 = Some (FixedTermAccount 0)"
    by (simp add: main_defs)
  let ?h' = "foldl deposit_only_entry
               (foldl withdrawable_entry main_heap (withdrawableAccounts main_client))
               (depositOnlyAccounts main_client)"
  from processTransactions_per_entry [OF valid_w valid_d]
  obtain out where run: "processTransactions main_client main_heap = Some (?h', out)"
    and shape: "transcript_shape (length (withdrawableAccounts main_client))
                  (length (depositOnlyAccounts main_client)) out"
    by blast
  have lines: "snd (the (processTransactions main_client main_heap)) =
      [Deposited 1000 ''Savings'' 1000, Withdrawn 500 ''Savings'' 500,
       Deposited 1000 ''Current'' 1000, Withdrawn 500 ''Current'' 500,
       Deposited 5000 ''Fixed Term'' 5000]"
    by (simp add: processTransactions_def main_defs)
  with run have out: "out = [Deposited 1000 ''Savings'' 1000, Withdrawn 500 ''Savings'' 500,
       Deposited 1000 ''Current'' 1000, Withdrawn 500 ''Current'' 500,
       Deposited 5000 ''Fixed Term'' 5000]"
    by simp
  have h0: "?h' 0 = Some (Withdrawable (SavingAccount 500))"
    and h1: "?h' 1 = Some (Withdrawable (CurrentAccount 500))"
    and h2: "?h' 2 = Some (FixedTermAccount 5000)"
    by (simp_all add: main_defs withdrawable_entry_def deposit_only_entry_def)
  from shape out start have shape': "transcript_shape 2 1
        [Deposited 1000 ''Savings'' 1000, Withdrawn 500 ''Savings'' 500,
         Deposited 1000 ''Current'' 1000, Withdrawn 500 ''Current'' 500,
         Deposited 5000 ''Fixed Term'' 5000]"
    by (simp add: numeral_2_eq_2)
  show ?thesis
    using start run out h0 h1 h2 shape' by blast
qed

text \<open>
  The loops act once for each entry, so an account that two entries point to receives
  the calls twice.
\<close>

lemma processTransactions_same_account_twice:
  "\<exists>h'. processTransactions (new_BankClient [0, 0] []) [0 \<mapsto> Withdrawable (SavingAccount 0)]
     = Some (h', [Deposited 1000 ''Savings'' 1000, Withdrawn 500 ''Savings'' 500,
                  Deposited 1000 ''Savings'' 1500, Withdrawn 500 ''Savings'' 1000])
     \<and> h' 0 = Some (Withdrawable (SavingAccount 1000))"
  by (simp add: processTransactions_def new_BankClient_def)

section \<open>Rounding\<close>

text \<open>
  Facts about \<open>round64\<close>: it leaves binary64 numbers unchanged, its finite results are
  binary64 numbers, it commutes with negation, and it never crosses a binary64 number:
  a real at or above a binary64 number \<open>c\<close> is rounded to a value at or above \<open>c\<close>, and
  likewise below.
\<close>

lemma two_powi_less_iff: "(2::real) powi m < 2 powi n \<longleftrightarrow> m < n"
proof
  assume less: "(2::real) powi m < 2 powi n"
  show "m < n"
  proof (rule ccontr)
    assume "\<not> m < n"
    then have "n \<le> m" by simp
    then have "(2::real) powi n \<le> 2 powi m" by (rule power_int_increasing) simp
    with less show False by simp
  qed
next
  assume "m < n"
  then show "(2::real) powi m < 2 powi n" by (rule power_int_strict_increasing) simp
qed

lemma two_powi_le_iff: "(2::real) powi m \<le> 2 powi n \<longleftrightarrow> m \<le> n"
  using two_powi_less_iff [of n m] by (simp add: not_less [symmetric])

lemma exponent_bounds:
  assumes "x \<noteq> 0"
  shows "2 powi exponent x \<le> \<bar>x\<bar>" and "\<bar>x\<bar> < 2 powi (exponent x + 1)"
proof -
  have "2 powi exponent x \<le> \<bar>x\<bar> \<and> \<bar>x\<bar> < 2 powi (exponent x + 1)"
  proof (cases "1 \<le> \<bar>x\<bar>")
    case True
    define n where "n = \<lfloor>\<bar>x\<bar>\<rfloor>"
    have npos: "0 < n" using True by (simp add: n_def)
    have k: "exponent x = bitlen n - 1" using True by (simp add: exponent_def n_def)
    have b1: "1 \<le> bitlen n" using npos by (simp add: bitlen_alt_def)
    from bitlen_bounds [OF npos]
    have lo: "(2::int) ^ nat (bitlen n - 1) \<le> n" and hi: "n < (2::int) ^ nat (bitlen n)"
      by simp_all
    have "(2::real) ^ nat (bitlen n - 1) \<le> real_of_int n"
      using lo by simp
    moreover have "real_of_int n \<le> \<bar>x\<bar>" by (simp add: n_def)
    ultimately have A: "(2::real) ^ nat (bitlen n - 1) \<le> \<bar>x\<bar>" by linarith
    have "n + 1 \<le> (2::int) ^ nat (bitlen n)" using hi by simp
    then have "real_of_int (n + 1) \<le> real_of_int (2 ^ nat (bitlen n))"
      unfolding of_int_le_iff .
    then have "real_of_int n + 1 \<le> (2::real) ^ nat (bitlen n)"
      by simp
    moreover have "\<bar>x\<bar> < real_of_int n + 1" by (simp add: n_def)
    ultimately have B: "\<bar>x\<bar> < (2::real) ^ nat (bitlen n)" by linarith
    have e1: "(2::real) powi (bitlen n - 1) = 2 ^ nat (bitlen n - 1)"
      using b1 by (simp add: power_int_def)
    have e2: "(2::real) powi (bitlen n - 1 + 1) = 2 ^ nat (bitlen n)"
      using b1 by (simp add: power_int_def)
    show ?thesis using A B e1 e2 k by simp
  next
    case False
    define y where "y = 1 / \<bar>x\<bar>"
    have xpos: "0 < \<bar>x\<bar>" using assms by simp
    have y1: "1 < y" using False xpos by (simp add: y_def)
    define M where "M = \<lceil>y\<rceil> - 1"
    have Mpos: "0 < M" using y1 by (simp add: M_def; linarith)
    have k: "exponent x = - bitlen M" using False by (simp add: exponent_def M_def y_def)
    have b1: "1 \<le> bitlen M" using Mpos by (simp add: bitlen_alt_def)
    from bitlen_bounds [OF Mpos]
    have lo: "(2::int) ^ nat (bitlen M - 1) \<le> M" and hi: "M < (2::int) ^ nat (bitlen M)"
      by simp_all
    have "\<lceil>y\<rceil> \<le> (2::int) ^ nat (bitlen M)" using hi by (simp add: M_def)
    then have "real_of_int \<lceil>y\<rceil> \<le> (2::real) ^ nat (bitlen M)"
      by simp
    moreover have "y \<le> real_of_int \<lceil>y\<rceil>" by simp
    ultimately have A: "y \<le> (2::real) ^ nat (bitlen M)" by linarith
    have "(2::real) ^ nat (bitlen M - 1) \<le> real_of_int M"
      using lo by simp
    moreover have "real_of_int M < y" by (simp add: M_def; linarith)
    ultimately have B: "(2::real) ^ nat (bitlen M - 1) < y" by linarith
    have A': "1 / (2::real) ^ nat (bitlen M) \<le> \<bar>x\<bar>"
      using A xpos by (simp add: y_def field_simps)
    have B': "\<bar>x\<bar> < 1 / (2::real) ^ nat (bitlen M - 1)"
      using B xpos by (simp add: y_def field_simps)
    have e1: "(2::real) powi (- bitlen M) = 1 / 2 ^ nat (bitlen M)"
      using b1 by (simp add: power_int_def field_simps)
    have e2: "(2::real) powi (- bitlen M + 1) = 1 / 2 ^ nat (bitlen M - 1)"
      using b1 by (simp add: power_int_def field_simps nat_diff_distrib)
    show ?thesis using A' B' e1 e2 k by simp
  qed
  then show "2 powi exponent x \<le> \<bar>x\<bar>" and "\<bar>x\<bar> < 2 powi (exponent x + 1)" by simp_all
qed

lemma exponent_unique:
  assumes "2 powi k \<le> \<bar>x\<bar>" and "\<bar>x\<bar> < 2 powi (k + 1)"
  shows "exponent x = k"
proof -
  have "\<not> (2::real) powi k \<le> 0" by (simp add: not_le)
  with assms(1) have "x \<noteq> 0" by auto
  note b = exponent_bounds [OF this]
  have "(2::real) powi exponent x < 2 powi (k + 1)" using b(1) assms(2) by linarith
  then have "exponent x < k + 1" by (simp only: two_powi_less_iff)
  moreover have "(2::real) powi k < 2 powi (exponent x + 1)" using b(2) assms(1) by linarith
  then have "k < exponent x + 1" by (simp only: two_powi_less_iff)
  ultimately show ?thesis by linarith
qed


lemma exponent_mono:
  assumes "x \<noteq> 0" and "\<bar>x\<bar> \<le> \<bar>y\<bar>"
  shows "exponent x \<le> exponent y"
proof -
  from assms have "y \<noteq> 0" by auto
  have "(2::real) powi exponent x \<le> \<bar>x\<bar>" by (rule exponent_bounds(1) [OF assms(1)])
  also have "\<dots> \<le> \<bar>y\<bar>" by (rule assms(2))
  also have "\<dots> < 2 powi (exponent y + 1)" by (rule exponent_bounds(2) [OF \<open>y \<noteq> 0\<close>])
  finally have "exponent x < exponent y + 1" by (simp only: two_powi_less_iff)
  then show ?thesis by simp
qed

lemma exponent_minus: "exponent (- x) = exponent x"
  by (simp add: exponent_def)

lemma spacing_pos: "0 < spacing x"
  by (simp add: spacing_def)

lemma spacing_minus: "spacing (- x) = spacing x"
  by (simp add: spacing_def exponent_minus)

lemma spacing_least: "2 powi (- 1074) \<le> spacing x"
  unfolding spacing_def by (simp only: two_powi_le_iff; simp)

lemma nearest_even_floor: "\<lfloor>t\<rfloor> \<le> nearest_even t"
  by (simp add: nearest_even_def)

lemma nearest_even_ceiling: "nearest_even t \<le> \<lceil>t\<rceil>"
proof (cases "t = of_int \<lfloor>t\<rfloor>")
  case True
  then have "t - of_int \<lfloor>t\<rfloor> < 1 / 2" by simp
  then show ?thesis by (simp add: nearest_even_def ceiling_def; linarith)
next
  case False
  then have "\<lceil>t\<rceil> = \<lfloor>t\<rfloor> + 1" by (simp add: ceiling_altdef)
  then show ?thesis by (simp add: nearest_even_def)
qed

lemma nearest_even_ge: "of_int m \<le> t \<Longrightarrow> m \<le> nearest_even t"
  using nearest_even_floor [of t] by (simp add: le_floor_iff [symmetric]) 

lemma nearest_even_le: "t \<le> of_int m \<Longrightarrow> nearest_even t \<le> m"
  using nearest_even_ceiling [of t] by (simp add: ceiling_le_iff [symmetric])

lemma nearest_even_of_int: "nearest_even (of_int m) = m"
  by (simp add: nearest_even_def)

lemma nearest_even_minus: "nearest_even (- t) = - nearest_even t"
proof (cases "t = of_int \<lfloor>t\<rfloor>")
  case True
  then obtain m where "t = of_int m" by blast
  then have "- t = of_int (- m)" by simp
  with \<open>t = of_int m\<close> show ?thesis by (simp only: nearest_even_of_int)
next
  case False
  then have c: "\<lceil>t\<rceil> = \<lfloor>t\<rfloor> + 1" by (simp add: ceiling_altdef)
  have f: "\<lfloor>- t\<rfloor> = - \<lfloor>t\<rfloor> - 1" using c by (simp add: ceiling_def)
  show ?thesis
    unfolding nearest_even_def f
    by (auto simp: algebra_simps)
qed


lemma nearest64_minus: "nearest64 (- x) = - nearest64 x"
  by (simp add: nearest64_def spacing_minus nearest_even_minus)

lemma nearest64_ge_grid:
  assumes "of_int m * spacing x \<le> x"
  shows "of_int m * spacing x \<le> nearest64 x"
proof -
  have "of_int m \<le> x / spacing x"
    using assms spacing_pos [of x] by (simp add: pos_le_divide_eq)
  then have "m \<le> nearest_even (x / spacing x)" by (rule nearest_even_ge)
  then have "real_of_int m \<le> of_int (nearest_even (x / spacing x))" by simp
  then show ?thesis
    unfolding nearest64_def using spacing_pos [of x] by (simp add: mult_right_mono)
qed

lemma nearest64_le_grid:
  assumes "x \<le> of_int m * spacing x"
  shows "nearest64 x \<le> of_int m * spacing x"
proof -
  have "x / spacing x \<le> of_int m"
    using assms spacing_pos [of x] by (simp add: pos_divide_le_eq)
  then have "nearest_even (x / spacing x) \<le> m" by (rule nearest_even_le)
  then have "real_of_int (nearest_even (x / spacing x)) \<le> of_int m" by simp
  then show ?thesis
    unfolding nearest64_def using spacing_pos [of x] by (simp add: mult_right_mono)
qed

lemma powi_on_grid:
  assumes "max (exponent x - 52) (- 1074) \<le> j"
  shows "\<exists>m. (2::real) powi j = of_int m * spacing x"
proof -
  define g where "g = max (exponent x - 52) (- 1074)"
  have "(2::real) powi j = 2 powi (j - g) * 2 powi g"
    by (simp add: power_int_add [symmetric])
  also have "(2::real) powi (j - g) = of_int (2 ^ nat (j - g))"
    using assms by (simp add: g_def power_int_def)
  finally show ?thesis
    unfolding spacing_def g_def by blast
qed

lemma representable_0: "representable 0"
  by (simp add: representable_def round64_def)

lemma representable_nearest64:
  assumes "representable c"
  shows "nearest64 c = c" and "\<bar>c\<bar> < overflow64"
proof -
  show "nearest64 c = c"
  proof (cases "c = 0")
    case True
    then show ?thesis by (simp add: nearest64_def nearest_even_def)
  next
    case False
    with assms show ?thesis
      by (simp add: representable_def round64_def split: if_splits)
  qed
  show "\<bar>c\<bar> < overflow64"
  proof (cases "c = 0")
    case True
    then show ?thesis by (simp add: overflow64_def)
  next
    case False
    with assms have "nearest64 c = c \<and> \<not> overflow64 \<le> \<bar>nearest64 c\<bar>"
      by (simp add: representable_def round64_def split: if_splits)
    then show ?thesis by (metis not_le)
  qed
qed

lemma representable_grid:
  assumes "representable c"
  shows "\<exists>m. c = of_int m * spacing c"
  using representable_nearest64(1) [OF assms] unfolding nearest64_def by metis

lemma representable_least:
  assumes "representable c" and "0 < c"
  shows "2 powi (- 1074) \<le> c"
proof -
  from representable_grid [OF assms(1)] obtain m where c: "c = of_int m * spacing c" by blast
  have "0 < real_of_int m"
    using assms(2) c spacing_pos [of c] by (metis zero_less_mult_pos2)
  then have "1 \<le> real_of_int m" by simp
  then have "spacing c \<le> of_int m * spacing c"
    using spacing_pos [of c] by (simp add: mult_le_cancel_right1)
  with c spacing_least [of c] show ?thesis by linarith
qed

lemma nearest64_lower:
  assumes rep: "representable c" and pos: "0 < c" and le: "c \<le> x"
  shows "c \<le> nearest64 x"
proof -
  have xpos: "0 < x" using pos le by simp
  have mono: "exponent c \<le> exponent x"
    by (rule exponent_mono) (use pos le in simp_all)
  show ?thesis
  proof (cases "exponent c = exponent x")
    case True
    then have same: "spacing c = spacing x" by (simp add: spacing_def)
    from representable_grid [OF rep] obtain m where c: "c = of_int m * spacing x"
      unfolding same by blast
    from nearest64_ge_grid [of m x] le c show ?thesis by simp
  next
    case False
    with mono have less: "exponent c + 1 \<le> exponent x" by simp
    have "c < 2 powi (exponent c + 1)"
      using exponent_bounds(2) [of c] pos by simp
    also have "\<dots> \<le> 2 powi exponent x" using less by (simp only: two_powi_le_iff)
    finally have c_less: "c < 2 powi exponent x" .
    have x_ge: "2 powi exponent x \<le> x"
      using exponent_bounds(1) [of x] xpos by simp
    have "- 1074 \<le> exponent x"
    proof (rule ccontr)
      assume "\<not> - 1074 \<le> exponent x"
      then have "exponent x + 1 \<le> - 1074" by simp
      then have "(2::real) powi (exponent x + 1) \<le> 2 powi (- 1074)"
        by (simp only: two_powi_le_iff)
      moreover have "x < 2 powi (exponent x + 1)"
        using exponent_bounds(2) [of x] xpos by simp
      moreover have "2 powi (- 1074) \<le> c" by (rule representable_least [OF rep pos])
      ultimately show False using le by linarith
    qed
    then have "max (exponent x - 52) (- 1074) \<le> exponent x" by simp
    from powi_on_grid [OF this] obtain m
      where m: "(2::real) powi exponent x = of_int m * spacing x" by blast
    from nearest64_ge_grid [of m x] x_ge m have "2 powi exponent x \<le> nearest64 x" by simp
    with c_less show ?thesis by linarith
  qed
qed

lemma nearest64_upper:
  assumes rep: "representable c" and xpos: "0 < x" and le: "x \<le> c"
  shows "nearest64 x \<le> c"
proof -
  have pos: "0 < c" using xpos le by simp
  have mono: "exponent x \<le> exponent c"
    by (rule exponent_mono) (use xpos le in simp_all)
  show ?thesis
  proof (cases "exponent c = exponent x")
    case True
    then have same: "spacing c = spacing x" by (simp add: spacing_def)
    from representable_grid [OF rep] obtain m where c: "c = of_int m * spacing x"
      unfolding same by blast
    from nearest64_le_grid [of x m] le c show ?thesis by simp
  next
    case False
    with mono have less: "exponent x + 1 \<le> exponent c" by simp
    have "(2::real) powi (exponent x + 1) \<le> 2 powi exponent c"
      using less by (simp only: two_powi_le_iff)
    also have "\<dots> \<le> c" using exponent_bounds(1) [of c] pos by simp
    finally have c_ge: "2 powi (exponent x + 1) \<le> c" .
    have x_less: "x < 2 powi (exponent x + 1)"
      using exponent_bounds(2) [of x] xpos by simp
    show ?thesis
    proof (cases "- 1074 \<le> exponent x + 1")
      case True
      then have "max (exponent x - 52) (- 1074) \<le> exponent x + 1" by simp
      from powi_on_grid [OF this] obtain m
        where m: "(2::real) powi (exponent x + 1) = of_int m * spacing x" by blast
      from nearest64_le_grid [of x m] x_less m
      have "nearest64 x \<le> 2 powi (exponent x + 1)" by simp
      with c_ge show ?thesis by linarith
    next
      case False
      then have sp: "spacing x = 2 powi (- 1074)" by (simp add: spacing_def max_def)
      from False have "exponent x + 1 \<le> - 1074" by simp
      then have "(2::real) powi (exponent x + 1) \<le> 2 powi (- 1074)"
        by (simp only: two_powi_le_iff)
      with x_less have "x \<le> of_int 1 * spacing x" using sp by simp
      then have "nearest64 x \<le> of_int 1 * spacing x" by (rule nearest64_le_grid)
      with sp representable_least [OF rep pos] show ?thesis by simp
    qed
  qed
qed


lemma round64_minus: "round64 (- x) = neg64 (round64 x)"
  by (simp add: round64_def nearest64_minus)

lemma representable_minus: "representable c \<Longrightarrow> representable (- c)"
  by (simp add: representable_def round64_minus)

lemma nearest64_nonneg: "0 \<le> x \<Longrightarrow> 0 \<le> nearest64 x"
  using nearest64_ge_grid [of 0 x] by simp

lemma round64_ge:
  assumes rep: "representable c" and le: "c \<le> x"
  shows "ge64 (round64 x) (Finite c)"
proof -
  consider "x = 0" | "0 < x" "c \<le> 0" | "0 < x" "0 < c" | "x < 0" by linarith
  then show ?thesis
  proof cases
    case 1
    with le show ?thesis by (simp add: round64_def)
  next
    case 2
    with nearest64_nonneg [of x] show ?thesis by (simp add: round64_def)
  next
    case 3
    from nearest64_lower [OF rep 3(2) le] 3(1) show ?thesis by (simp add: round64_def)
  next
    case 4
    have "nearest64 (- x) \<le> - c"
      by (rule nearest64_upper [OF representable_minus [OF rep]]) (use 4 le in simp_all)
    then have lower: "c \<le> nearest64 x" by (simp add: nearest64_minus)
    have "nearest64 x \<le> 0"
      using nearest64_le_grid [of x 0] 4 by simp
    with lower have "\<bar>nearest64 x\<bar> \<le> \<bar>c\<bar>" by simp
    with representable_nearest64(2) [OF rep] have "\<not> overflow64 \<le> \<bar>nearest64 x\<bar>" by simp
    with lower 4 show ?thesis by (simp add: round64_def)
  qed
qed

lemma ge64_neg64: "ge64 (neg64 a) (neg64 b) = ge64 b a"
  by (cases a; cases b) simp_all

lemma round64_le:
  assumes rep: "representable c" and le: "x \<le> c"
  shows "ge64 (Finite c) (round64 x)"
proof -
  have "ge64 (round64 (- x)) (Finite (- c))"
    by (rule round64_ge [OF representable_minus [OF rep]]) (use le in simp)
  then have "ge64 (neg64 (round64 x)) (neg64 (Finite c))" by (simp add: round64_minus)
  then show ?thesis by (simp only: ge64_neg64)
qed

lemma round64_representable: "representable c \<Longrightarrow> round64 c = Finite c"
  by (simp add: representable_def)


lemma sub64_Finite: "sub64 (Finite x) (Finite y) = round64 (x - y)"
  by (simp add: sub64_def)

lemma ge64_not_lt64: "ge64 a b \<Longrightarrow> \<not> lt64 a b"
  by (cases a; cases b) simp_all

lemma exponent_powi: "exponent (2 powi j) = j"
proof (rule exponent_unique)
  have pos: "(0::real) < 2 powi j" by simp
  show "(2::real) powi j \<le> \<bar>2 powi j\<bar>" using pos by simp
  have "(2::real) powi j < 2 powi (j + 1)" by (simp only: two_powi_less_iff; simp)
  then show "\<bar>(2::real) powi j\<bar> < 2 powi (j + 1)" using pos by (simp only: abs_of_pos)
qed

lemma grid_representable:
  assumes "y = of_int m * spacing y" and "\<bar>y\<bar> < overflow64"
  shows "representable y"
proof (cases "y = 0")
  case True
  then show ?thesis by (simp add: representable_0)
next
  case False
  have "y / spacing y = of_int m"
    using assms(1) spacing_pos [of y] by (metis nonzero_eq_divide_eq less_irrefl)
  then have "nearest64 y = y"
    unfolding nearest64_def using assms(1) by (simp only: nearest_even_of_int; simp)
  with False assms(2) show ?thesis
    by (simp add: representable_def round64_def)
qed

lemma representable_powi:
  assumes "- 1074 \<le> j" and "j < 1024"
  shows "representable (2 powi j)"
proof -
  have "max (exponent (2 powi j) - 52) (- 1074) \<le> j"
    using assms(1) by (simp add: exponent_powi)
  from powi_on_grid [OF this] obtain m
    where m: "(2::real) powi j = of_int m * spacing (2 powi j)" by blast
  have "(2::real) powi j < 2 powi 1024"
    using assms(2) by (simp only: two_powi_less_iff)
  then have "\<bar>(2::real) powi j\<bar> < overflow64"
    by (simp add: overflow64_def)
  with m show ?thesis by (rule grid_representable)
qed

lemma representable_tiny: "representable (- (2 powi (- 1074)))"
  by (rule representable_minus, rule representable_powi) simp_all

lemma representable_multiple:
  assumes "representable c"
  shows "\<exists>m. c = of_int m * 2 powi (- 1074)"
proof -
  from representable_grid [OF assms] obtain n where c: "c = of_int n * spacing c" by blast
  define g where "g = max (exponent c - 52) (- 1074)"
  define j :: int where "j = - 1074"
  have le: "j \<le> g" by (simp add: g_def j_def)
  have "(2::real) powi g = 2 powi ((g - j) + j)" by simp
  also have "\<dots> = 2 powi (g - j) * 2 powi j" by (rule power_int_add) simp
  also have "(2::real) powi (g - j) = of_int (2 ^ nat (g - j))"
    using le by (simp add: power_int_def)
  finally have "c = of_int (n * 2 ^ nat (g - j)) * 2 powi j"
    using c unfolding spacing_def g_def by simp
  then show ?thesis unfolding j_def by blast
qed

lemma difference_negative:
  assumes "representable a" and "representable b" and "b < a"
  shows "b - a \<le> - (2 powi (- 1074))"
proof -
  define u :: real where "u = 2 powi (- 1074)"
  from representable_multiple [OF assms(1)] obtain m where a: "a = of_int m * u"
    unfolding u_def by blast
  from representable_multiple [OF assms(2)] obtain n where b: "b = of_int n * u"
    unfolding u_def by blast
  have u: "0 < u" unfolding u_def by (rule zero_less_power_int) simp
  have "real_of_int n * u < of_int m * u"
    using assms(3) a b by simp
  then have "real_of_int n < of_int m" using u by (simp only: mult_less_cancel_right_pos)
  then have "n + 1 \<le> m" by simp
  then have "real_of_int (n + 1) \<le> of_int m" by (simp only: of_int_le_iff)
  then have "real_of_int (n + 1) * u \<le> of_int m * u"
    using u by (simp only: mult_le_cancel_right_pos)
  then have "b - a \<le> - u" unfolding a b by (simp add: algebra_simps)
  then show ?thesis unfolding u_def .
qed

lemma below_negative_is_negative:
  assumes "ge64 (Finite c) r" and "c < 0"
  shows "lt64 r (Finite 0)"
  using assms by (cases r) simp_all

lemma insufficient_guard:
  assumes "representable a" and "representable b"
  shows "lt64 (sub64 (Finite b) (Finite a)) (Finite 0) \<longleftrightarrow> b < a"
proof
  assume "lt64 (sub64 (Finite b) (Finite a)) (Finite 0)"
  show "b < a"
  proof (rule ccontr)
    assume "\<not> b < a"
    then have "0 \<le> b - a" by simp
    from round64_ge [OF representable_0 this]
    have "\<not> lt64 (round64 (b - a)) (Finite 0)" by (rule ge64_not_lt64)
    with \<open>lt64 (sub64 (Finite b) (Finite a)) (Finite 0)\<close> show False
      by (simp add: sub64_Finite)
  qed
next
  assume "b < a"
  from difference_negative [OF assms this]
  have "ge64 (Finite (- (2 powi (- 1074)))) (round64 (b - a))"
    by (rule round64_le [OF representable_tiny])
  moreover have "- ((2::real) powi (- 1074)) < 0"
    by (simp only: neg_less_0_iff_less, rule zero_less_power_int) simp
  ultimately have "lt64 (round64 (b - a)) (Finite 0)"
    by (rule below_negative_is_negative)
  then show "lt64 (sub64 (Finite b) (Finite a)) (Finite 0)" by (simp add: sub64_Finite)
qed


lemma nearest64_closed_pos:
  assumes xpos: "0 < x" and below: "nearest64 x < overflow64"
  shows "representable (nearest64 x)"
proof -
  define y where "y = nearest64 x"
  define g where "g = max (exponent x - 52) (- 1074)"
  have u: "spacing x = 2 powi g" by (simp add: spacing_def g_def)
  obtain n where n: "y = of_int n * spacing x"
    unfolding y_def nearest64_def by blast
  have nonneg: "0 \<le> y" unfolding y_def using xpos by (simp add: nearest64_nonneg)
  have x_less: "x < 2 powi (exponent x + 1)"
    using exponent_bounds(2) [of x] xpos by simp
  show ?thesis
  proof (cases "y = 0")
    case True
    then show ?thesis unfolding y_def [symmetric] by (simp add: representable_0)
  next
    case False
    with nonneg have ypos: "0 < y" by simp
    have small: "\<bar>y\<bar> < overflow64" using below nonneg unfolding y_def by simp
    show ?thesis
    proof (cases "max (exponent y - 52) (- 1074) \<le> g")
      case True
      from powi_on_grid [OF this] obtain m where "(2::real) powi g = of_int m * spacing y" by blast
      with n u have "y = of_int (n * m) * spacing y" by simp
      then have "representable y" using small by (rule grid_representable)
      then show ?thesis unfolding y_def .
    next
      case False
      have g_low: "- 1074 \<le> g" by (simp add: g_def)
      with False have far: "g < exponent y - 52" by simp
      have "exponent x - 52 \<le> g" by (simp add: g_def)
      with far have above: "exponent x + 1 \<le> exponent y" by simp
      have y_ge: "2 powi exponent y \<le> y"
        using exponent_bounds(1) [of y] ypos by simp
      have on_grid: "- 1074 \<le> exponent x + 1"
      proof (rule ccontr)
        assume "\<not> - 1074 \<le> exponent x + 1"
        then have k: "exponent x + 1 \<le> - 1074" and g: "g = - 1074" by (simp_all add: g_def)
        from k have "(2::real) powi (exponent x + 1) \<le> 2 powi (- 1074)"
          by (simp only: two_powi_le_iff)
        with x_less have "x \<le> of_int 1 * spacing x" unfolding u g by simp
        then have "nearest64 x \<le> of_int 1 * spacing x" by (rule nearest64_le_grid)
        then have "y \<le> 2 powi (- 1074)" unfolding y_def u g by simp
        with y_ge have "(2::real) powi exponent y \<le> 2 powi (- 1074)" by linarith
        then have "exponent y \<le> - 1074" by (simp only: two_powi_le_iff)
        with far g_low show False by simp
      qed
      then have "max (exponent x - 52) (- 1074) \<le> exponent x + 1" by simp
      from powi_on_grid [OF this] obtain m
        where m: "(2::real) powi (exponent x + 1) = of_int m * spacing x" by blast
      from nearest64_le_grid [of x m] x_less m
      have "y \<le> 2 powi (exponent x + 1)" unfolding y_def by simp
      also have "\<dots> \<le> 2 powi exponent y" using above by (simp only: two_powi_le_iff)
      finally have eq: "y = 2 powi exponent y" using y_ge by simp
      have "(2::real) powi exponent y < 2 powi 1024"
        using small ypos eq by (simp add: overflow64_def)
      then have "exponent y < 1024" by (simp only: two_powi_less_iff)
      moreover have "- 1074 \<le> exponent y" using far g_low by simp
      ultimately have "representable (2 powi exponent y)" by (simp add: representable_powi)
      with eq show ?thesis unfolding y_def by simp
    qed
  qed
qed

lemma round64_closed:
  assumes "round64 x = Finite y"
  shows "representable y"
proof -
  consider "x = 0" | "0 < x" | "x < 0" by linarith
  then show ?thesis
  proof cases
    case 1
    with assms show ?thesis by (simp add: round64_def representable_0)
  next
    case 2
    with assms have y: "y = nearest64 x" and "\<not> overflow64 \<le> \<bar>nearest64 x\<bar>"
      by (simp_all add: round64_def split: if_splits)
    then have "nearest64 x < overflow64" by simp
    from nearest64_closed_pos [OF 2 this] y show ?thesis by simp
  next
    case 3
    with assms have y: "y = nearest64 x" and "\<not> overflow64 \<le> \<bar>nearest64 x\<bar>"
      by (simp_all add: round64_def split: if_splits)
    then have "nearest64 (- x) < overflow64" by (simp add: nearest64_minus)
    moreover have "0 < - x" using 3 by simp
    ultimately have "representable (nearest64 (- x))" by (rule nearest64_closed_pos [rotated])
    then have "representable (- nearest64 (- x))" by (rule representable_minus)
    with y show ?thesis by (simp add: nearest64_minus)
  qed
qed

lemmas binary64_eval = representable_def round64_def nearest64_def spacing_def exponent_def
  nearest_even_def overflow64_def compute_bitlen sub64_def

section \<open>Deposit and withdraw with rounding\<close>

lemma balance64_deposit64:
  "balance64 w = Finite b \<Longrightarrow> balance64 (fst (deposit64 w (Finite a))) = round64 (b + a)"
  by (cases w) simp_all

lemma balance_of64_deposit_only64:
  "balance_of64 d = Finite b \<Longrightarrow> balance_of64 (fst (deposit_only64 d (Finite a))) = round64 (b + a)"
proof (cases d)
  case (FixedTermAccount64 x)
  then show "balance_of64 d = Finite b \<Longrightarrow> ?thesis" by simp
next
  case (Withdrawable64 w)
  then show "balance_of64 d = Finite b \<Longrightarrow> ?thesis"
    using balance64_deposit64 [of w b a] by (simp add: split_beta)
qed

lemma deposit64_not_refused: "\<not> refused64 (snd (deposit64 w a))"
  by (cases w) simp_all

lemma deposit_only64_not_refused: "\<not> refused64 (snd (deposit_only64 d a))"
proof (cases d)
  case (FixedTermAccount64 x)
  then show ?thesis by simp
next
  case (Withdrawable64 w)
  then show ?thesis using deposit64_not_refused [of w a] by (simp add: split_beta)
qed

text \<open>
  The binary64 model and the exact model give the same objects and the same lines
  whenever the exact result of the addition or subtraction is a binary64 number.
\<close>

lemma deposit64_exact:
  assumes "representable (balance w + a)"
  shows "deposit64 (machine w) (Finite a)
           = (machine (fst (deposit w a)), machine_line (snd (deposit w a)))"
  using assms by (cases w) (simp_all add: round64_representable)

lemma withdraw64_exact:
  assumes "representable (balance w - a)"
  shows "withdraw64 (machine w) (Finite a)
           = (machine (fst (withdraw w a)), machine_line (snd (withdraw w a)))"
  using assms by (cases w) (simp_all add: sub64_Finite round64_representable)

lemma BankAccount_withdraw64_exact:
  assumes "representable (BankAccount_balance x - a)"
  shows "BankAccount_withdraw64 (machine_BankAccount x) (Finite a)
           = (machine_BankAccount (fst (BankAccount_withdraw x a)),
              map_sum (\<lambda>e. e) machine_line (snd (BankAccount_withdraw x a)))"
  using assms by (cases x) (simp_all add: sub64_Finite round64_representable)

text \<open>
  C3 as stated fails: \<open>deposit(a)\<close> does not increase the balance by exactly \<open>a\<close>
  where the sum is rounded. A fresh \<open>SavingAccount\<close> has balance \<open>10^16\<close> after \<open>deposit(1e16)\<close>; the
  next \<open>deposit(1)\<close> leaves the balance at \<open>10^16\<close>, since \<open>10^16 + 1\<close> lies halfway
  between two binary64 numbers and the tie goes to \<open>10^16\<close>.
\<close>

theorem deposit64_counterexample:
  "representable 10000000000000000 \<and> representable 1 \<and> (0::real) < 1
   \<and> balance64 (fst (deposit64 new_SavingAccount64 (Finite 10000000000000000)))
       = Finite 10000000000000000
   \<and> balance64 (fst (deposit64 (SavingAccount64 (Finite 10000000000000000)) (Finite 1)))
       = Finite 10000000000000000
   \<and> Finite 10000000000000000 \<noteq> Finite (10000000000000000 + 1)"
  by (simp add: binary64_eval new_SavingAccount64_def)

text \<open>
  C3. For every class of the hierarchy, every finite balance \<open>b\<close> and every finite
  amount \<open>a > 0\<close>: \<open>deposit(a)\<close> is carried out whatever the state, and the new balance
  is the binary64 sum of \<open>b\<close> and \<open>a\<close>, that is \<open>b + a\<close> rounded to nearest (to
  \<open>+infinity\<close> on overflow). The balance never decreases, and it increases by exactly
  \<open>a\<close> whenever \<open>b + a\<close> is a binary64 number.
\<close>

theorem deposit64_adds_rounded:
  assumes "representable b" and "representable a" and "0 < a"
      and "balance64 w = Finite b" and "balance_of64 d = Finite b"
  shows "balance64 (fst (deposit64 w (Finite a))) = round64 (b + a)
       \<and> ge64 (balance64 (fst (deposit64 w (Finite a)))) (Finite b)
       \<and> (representable (b + a) \<longrightarrow> balance64 (fst (deposit64 w (Finite a))) = Finite (b + a))
       \<and> \<not> refused64 (snd (deposit64 w (Finite a)))
       \<and> balance_of64 (fst (deposit_only64 d (Finite a))) = round64 (b + a)
       \<and> ge64 (balance_of64 (fst (deposit_only64 d (Finite a)))) (Finite b)
       \<and> (representable (b + a) \<longrightarrow>
             balance_of64 (fst (deposit_only64 d (Finite a))) = Finite (b + a))
       \<and> \<not> refused64 (snd (deposit_only64 d (Finite a)))"
proof -
  have "b \<le> b + a" using assms(3) by simp
  from round64_ge [OF assms(1) this] have up: "ge64 (round64 (b + a)) (Finite b)" .
  show ?thesis
    using up balance64_deposit64 [OF assms(4), of a] balance_of64_deposit_only64 [OF assms(5), of a]
    by (simp add: deposit64_not_refused deposit_only64_not_refused round64_representable)
qed

theorem deposit64_adds_rounded_witness:
  "representable 100 \<and> representable 1000 \<and> (0::real) < 1000
   \<and> balance64 (fst (deposit64 (SavingAccount64 (Finite 100)) (Finite 1000))) = Finite 1100
   \<and> balance_of64 (fst (deposit_only64 (FixedTermAccount64 (Finite 100)) (Finite 1000)))
       = Finite 1100
   \<and> ge64 (Finite 1100) (Finite 100)"
proof -
  have b: "representable 100" and a: "representable 1000" and s: "representable (100 + 1000)"
    by (simp_all add: binary64_eval)
  have pos: "(0::real) < 1000" by simp
  have w: "balance64 (SavingAccount64 (Finite 100)) = Finite 100"
    and d: "balance_of64 (FixedTermAccount64 (Finite 100)) = Finite 100" by simp_all
  show ?thesis
    using deposit64_adds_rounded [OF b a pos w d] b a s by simp
qed

text \<open>
  C9 as stated fails: a negative deposit does not strictly decrease the balance
  where the sum is rounded. At balance \<open>10^16\<close>, \<open>deposit(-1)\<close> leaves the balance at \<open>10^16\<close>.
\<close>

theorem negative_deposit64_counterexample:
  "representable 10000000000000000 \<and> representable (- 1) \<and> (- 1::real) < 0
   \<and> balance64 (fst (deposit64 (SavingAccount64 (Finite 10000000000000000)) (Finite (- 1))))
       = Finite 10000000000000000
   \<and> \<not> lt64 (balance64 (fst (deposit64 (SavingAccount64 (Finite 10000000000000000))
                                        (Finite (- 1)))))
              (Finite 10000000000000000)"
  by (simp add: binary64_eval)

text \<open>
  C9. \<open>deposit\<close> does not look at its argument: for every class, every finite balance
  \<open>b\<close> and every finite amount \<open>a\<close>, also zero or negative, the call is carried out and
  the new balance is the binary64 sum of \<open>b\<close> and \<open>a\<close>, which is \<open>b + a\<close> whenever that
  is a binary64 number. A negative amount never increases the balance, and on a fresh
  account it leaves the balance \<open>a\<close>, below zero: nothing in \<open>deposit\<close> keeps the
  balance at or above zero.
\<close>

theorem deposit64_does_not_validate:
  assumes "representable b" and "representable a"
      and "balance64 w = Finite b" and "balance_of64 d = Finite b"
  shows "balance64 (fst (deposit64 w (Finite a))) = round64 (b + a)
       \<and> \<not> refused64 (snd (deposit64 w (Finite a)))
       \<and> balance_of64 (fst (deposit_only64 d (Finite a))) = round64 (b + a)
       \<and> \<not> refused64 (snd (deposit_only64 d (Finite a)))
       \<and> (representable (b + a) \<longrightarrow> round64 (b + a) = Finite (b + a))
       \<and> (a < 0 \<longrightarrow> ge64 (Finite b) (round64 (b + a)))
       \<and> balance64 (fst (deposit64 new_SavingAccount64 (Finite a))) = Finite a
       \<and> balance64 (fst (deposit64 new_CurrentAccount64 (Finite a))) = Finite a
       \<and> balance_of64 (fst (deposit_only64 new_FixedTermAccount64 (Finite a))) = Finite a
       \<and> (a < 0 \<longrightarrow> lt64 (balance64 (fst (deposit64 new_SavingAccount64 (Finite a)))) (Finite 0))"
proof -
  have down: "a < 0 \<longrightarrow> ge64 (Finite b) (round64 (b + a))"
  proof
    assume "a < 0"
    then have "b + a \<le> b" by simp
    from round64_le [OF assms(1) this] show "ge64 (Finite b) (round64 (b + a))" .
  qed
  have fresh: "round64 (0 + a) = Finite a"
    using assms(2) by (simp add: round64_representable)
  show ?thesis
    using down fresh balance64_deposit64 [OF assms(3), of a]
      balance_of64_deposit_only64 [OF assms(4), of a]
    by (simp add: deposit64_not_refused deposit_only64_not_refused round64_representable
        new_SavingAccount64_def new_CurrentAccount64_def new_FixedTermAccount64_def)
qed

theorem deposit64_does_not_validate_witness:
  "representable 100 \<and> representable (- 5) \<and> (- 5::real) < 0
   \<and> balance64 (fst (deposit64 (SavingAccount64 (Finite 100)) (Finite (- 5)))) = Finite 95
   \<and> balance_of64 (fst (deposit_only64 new_FixedTermAccount64 (Finite (- 5)))) = Finite (- 5)
   \<and> lt64 (balance64 (fst (deposit64 new_SavingAccount64 (Finite (- 5))))) (Finite 0)"
proof -
  have b: "representable 100" and a: "representable (- 5)" and s: "representable (100 + - 5)"
    by (simp_all add: binary64_eval)
  have w: "balance64 (SavingAccount64 (Finite 100)) = Finite 100"
    and d: "balance_of64 (FixedTermAccount64 (Finite 100)) = Finite 100" by simp_all
  show ?thesis
    using deposit64_does_not_validate [OF b a w d] b a s by simp
qed

lemma withdraw64_enough:
  assumes "balance64 w = Finite b" and "a \<le> b"
  shows "balance64 (fst (withdraw64 w (Finite a))) = round64 (b - a)"
    and "\<not> refused64 (snd (withdraw64 w (Finite a)))"
  using assms by (cases w; simp add: sub64_Finite)+

lemma withdraw64_short:
  assumes "balance64 w = Finite b" and "b < a"
  shows "fst (withdraw64 w (Finite a)) = w" and "refused64 (snd (withdraw64 w (Finite a)))"
  using assms by (cases w; simp)+

text \<open>
  C2 as stated fails: a covered withdrawal does not decrease the balance by exactly
  \<open>a\<close> where the difference is rounded. At balance \<open>10^16\<close>, \<open>withdraw(1)\<close> is carried out, by
  \<open>SavingAccount\<close> and by \<open>BankAccount\<close>, and leaves the balance at \<open>10^16\<close>.
\<close>

theorem withdraw64_counterexample:
  "representable 10000000000000000 \<and> representable 1 \<and> (0::real) < 1
   \<and> (1::real) \<le> 10000000000000000
   \<and> withdraw64 (SavingAccount64 (Finite 10000000000000000)) (Finite 1)
       = (SavingAccount64 (Finite 10000000000000000),
          Withdrawn64 (Finite 1) ''Savings'' (Finite 10000000000000000))
   \<and> BankAccount_withdraw64 (BankAccount64 (Finite 10000000000000000)) (Finite 1)
       = (BankAccount64 (Finite 10000000000000000),
          Inr (AmountWithdrawn64 (Finite 10000000000000000)))
   \<and> Finite 10000000000000000 \<noteq> Finite (10000000000000000 - 1)"
  by (simp add: binary64_eval)

text \<open>
  C2. The contract of \<open>withdraw\<close> for the bodies that implement it, \<open>SavingAccount\<close>,
  \<open>CurrentAccount\<close> and the base class \<open>BankAccount\<close>, for every finite balance \<open>b\<close> and
  every finite amount \<open>a > 0\<close>.
  \<^item> When \<open>a \<le> b\<close> the withdrawal is carried out and the new balance is the binary64
    difference of \<open>b\<close> and \<open>a\<close>, that is \<open>b - a\<close> rounded to nearest. It is never
    negative and never above \<open>b\<close>, and it is \<open>b - a\<close> whenever that is a binary64 number.
  \<^item> When \<open>a > b\<close> the withdrawal is refused for insufficient funds (the two classes
    of the hierarchy print the refusal, \<open>BankAccount\<close> throws \<open>runtime_error\<close>) and the
    object is unchanged.
\<close>

theorem withdraw64_contract:
  assumes "representable b" and "representable a" and "0 < a"
      and "balance64 w = Finite b"
  shows "(a \<le> b \<longrightarrow>
            balance64 (fst (withdraw64 w (Finite a))) = round64 (b - a)
          \<and> \<not> refused64 (snd (withdraw64 w (Finite a))))
       \<and> (b < a \<longrightarrow>
            fst (withdraw64 w (Finite a)) = w \<and> refused64 (snd (withdraw64 w (Finite a))))
       \<and> BankAccount_withdraw64 (BankAccount64 (Finite b)) (Finite a) =
            (if a \<le> b
             then (BankAccount64 (round64 (b - a)), Inr (AmountWithdrawn64 (round64 (b - a))))
             else (BankAccount64 (Finite b), Inl (runtime_error ''Insufficient funds'')))
       \<and> (a \<le> b \<longrightarrow> ge64 (round64 (b - a)) (Finite 0) \<and> ge64 (Finite b) (round64 (b - a)))
       \<and> (representable (b - a) \<longrightarrow> round64 (b - a) = Finite (b - a))"
proof -
  have guard: "lt64 (sub64 (Finite b) (Finite a)) (Finite 0) \<longleftrightarrow> b < a"
    by (rule insufficient_guard [OF assms(2) assms(1)])
  have bank: "BankAccount_withdraw64 (BankAccount64 (Finite b)) (Finite a) =
            (if a \<le> b
             then (BankAccount64 (round64 (b - a)), Inr (AmountWithdrawn64 (round64 (b - a))))
             else (BankAccount64 (Finite b), Inl (runtime_error ''Insufficient funds'')))"
    using guard by (simp add: sub64_Finite not_less [symmetric])
  have bounds: "a \<le> b \<longrightarrow> ge64 (round64 (b - a)) (Finite 0) \<and> ge64 (Finite b) (round64 (b - a))"
  proof
    assume "a \<le> b"
    then have "0 \<le> b - a" by simp
    from round64_ge [OF representable_0 this] have lo: "ge64 (round64 (b - a)) (Finite 0)" .
    have "b - a \<le> b" using assms(3) by simp
    from round64_le [OF assms(1) this] have "ge64 (Finite b) (round64 (b - a))" .
    with lo show "ge64 (round64 (b - a)) (Finite 0) \<and> ge64 (Finite b) (round64 (b - a))" ..
  qed
  show ?thesis
    using withdraw64_enough [OF assms(4)] withdraw64_short [OF assms(4)] bank bounds
    by (simp add: round64_representable)
qed

theorem withdraw64_contract_witness:
  "representable 600 \<and> representable 50 \<and> (0::real) < 50
   \<and> withdraw64 (CurrentAccount64 (Finite 600)) (Finite 50)
       = (CurrentAccount64 (Finite 550), Withdrawn64 (Finite 50) ''Current'' (Finite 550))
   \<and> balance64 (fst (withdraw64 (CurrentAccount64 (Finite 600)) (Finite 50))) = Finite 550
   \<and> BankAccount_withdraw64 (BankAccount64 (Finite 600)) (Finite 50)
       = (BankAccount64 (Finite 550), Inr (AmountWithdrawn64 (Finite 550)))
   \<and> withdraw64 (SavingAccount64 (Finite 0)) (Finite 50)
       = (SavingAccount64 (Finite 0), Insufficient64 ''Savings'')
   \<and> BankAccount_withdraw64 (BankAccount64 (Finite 0)) (Finite 50)
       = (BankAccount64 (Finite 0), Inl (runtime_error ''Insufficient funds''))"
proof -
  have b: "representable 600" and a: "representable 50" and z: "representable 0"
    and s: "representable (600 - 50)"
    by (simp_all add: binary64_eval)
  have pos: "(0::real) < 50" by simp
  have w: "balance64 (CurrentAccount64 (Finite 600)) = Finite 600"
    and w0: "balance64 (SavingAccount64 (Finite 0)) = Finite 0" by simp_all
  show ?thesis
    using withdraw64_contract [OF b a pos w] withdraw64_contract [OF z a pos w0] b a s
    by (simp add: binary64_eval)
qed

section \<open>The concrete inputs over binary64\<close>

text \<open>
  The concrete inputs used above with exact arithmetic give the same results over
  binary64: every number involved is a small integer.
\<close>

lemma scenario64:
  "deposit64 new_SavingAccount64 (Finite 100)
     = (SavingAccount64 (Finite 100), Deposited64 (Finite 100) ''Savings'' (Finite 100))
   \<and> deposit64 (SavingAccount64 (Finite 100)) (Finite 1000)
     = (SavingAccount64 (Finite 1100), Deposited64 (Finite 1000) ''Savings'' (Finite 1100))
   \<and> withdraw64 (SavingAccount64 (Finite 1100)) (Finite 500)
     = (SavingAccount64 (Finite 600), Withdrawn64 (Finite 500) ''Savings'' (Finite 600))"
  by (simp add: binary64_eval new_SavingAccount64_def)

lemma CheatAccount64_withdraw:
  "BankAccount_withdraw64 (CheatAccount64 (Finite 100)) (Finite 200)
     = (CheatAccount64 (Finite (- 100)), Inr (AmountWithdrawn64 (Finite (- 100))))"
  by (simp add: binary64_eval)

lemma FixedDepositAccount64_withdraw:
  "BankAccount_withdraw64 (FixedDepositAccount64 b) a
     = (FixedDepositAccount64 b, Inl (runtime_error ''Withdraw not allowed in Fixed Deposit''))"
  by simp

lemma BankAccount64_withdraw_100_50:
  "BankAccount_withdraw64 (BankAccount64 (Finite 100)) (Finite 50)
     = (BankAccount64 (Finite 50), Inr (AmountWithdrawn64 (Finite 50)))"
  by (simp add: binary64_eval)

section \<open>Scenarios\<close>

text \<open>
  C8. An account whose balance is 100 has balance 1100 after \<open>deposit(1000)\<close>, and the
  following \<open>withdraw(500)\<close> is carried out and leaves balance 600. The same holds for
  both withdrawable classes. A \<open>SavingAccount\<close> starts at 0, so it has balance 100
  after a first \<open>deposit(100)\<close>.
\<close>

theorem scenario_deposit_then_withdraw:
  "fst (deposit new_SavingAccount 100) = SavingAccount 100
   \<and> deposit (SavingAccount 100) 1000 = (SavingAccount 1100, Deposited 1000 ''Savings'' 1100)
   \<and> withdraw (SavingAccount 1100) 500 = (SavingAccount 600, Withdrawn 500 ''Savings'' 600)
   \<and> balance (fst (withdraw (fst (deposit (SavingAccount 100) 1000)) 500)) = 600
   \<and> \<not> refused (snd (withdraw (fst (deposit (SavingAccount 100) 1000)) 500))
   \<and> balance (fst (withdraw (fst (deposit (CurrentAccount 100) 1000)) 500)) = 600
   \<and> \<not> refused (snd (withdraw (fst (deposit (CurrentAccount 100) 1000)) 500))"
  by (simp add: new_SavingAccount_def)

end
